theory Spec2Isabelle
  imports Complex_Main
begin

section \<open>Ledger value objects (types.ts)\<close>

text \<open>
  The records follow the interfaces of \<^verbatim>\<open>types.ts\<close>. Several interfaces share the
  field names \<^verbatim>\<open>id\<close>, \<^verbatim>\<open>customerId\<close>, \<^verbatim>\<open>amount\<close>, \<^verbatim>\<open>date\<close> and \<^verbatim>\<open>notes\<close>; a record
  field is a global constant, so these carry a prefix (\<open>c_\<close>, \<open>b_\<close>, \<open>p_\<close>, \<open>dp_\<close>, \<open>a_\<close>).
  An optional field (\<^verbatim>\<open>notes?\<close>, \<^verbatim>\<open>paidDate?\<close>) is an \<open>option\<close>: \<open>None\<close> is the absent key.

  A TypeScript \<^verbatim>\<open>number\<close> that holds an amount of money is an \<open>int\<close>, an amount in
  whole units: the ledger only adds, subtracts and compares amounts, and JavaScript's
  doubles do that exactly on whole numbers up to 2^53 (\<open>double_of_int\<close> below). The
  rounding of fractional amounts is modelled apart, for the due ledger, by \<open>double\<close>.

  A JavaScript \<^verbatim>\<open>Date\<close> is the record of what its accessors answer in the local time
  zone: \<^verbatim>\<open>getFullYear()\<close>, \<^verbatim>\<open>getMonth()\<close> (0 to 11), \<^verbatim>\<open>getDate()\<close> and the milliseconds
  since local midnight. Two dates read in the same zone compare by these fields
  in order. The due date of a bill, which the code builds as a \<^verbatim>\<open>Date\<close>, is kept as
  that \<open>Date\<close>. The start date of a customer is the stored text, as in \<^verbatim>\<open>types.ts\<close>;
  \<open>new_Date_text\<close> below is \<^verbatim>\<open>new Date(customer.startDate)\<close>.
\<close>

datatype ConnectionStatus = ACTIVE | INACTIVE | PAUSED

datatype BillStatus = PAID | UNPAID

record Date =
  fullYear :: int
  month :: nat
  date :: nat
  msOfDay :: nat

record Customer =
  c_id :: string
  c_name :: string
  phone :: string
  address :: string
  area :: string
  monthlyBill :: int
  connectionStatus :: ConnectionStatus
  startDate :: string
  openingDue :: int
  reactivationDate :: "string option"

record Payment =
  p_id :: string
  p_customerId :: string
  p_amount :: int
  p_date :: string
  p_notes :: "string option"

record Bill =
  b_id :: string
  b_customerId :: string
  b_amount :: int
  b_month :: nat
  b_year :: int
  status :: BillStatus
  dueDate :: Date
  paidDate :: "string option"
  paymentId :: "string option"
  paidAmount :: "int option"

record DuePayment =
  dp_id :: string
  dp_customerId :: string
  dp_amount :: int
  dp_date :: string
  dp_notes :: "string option"

record Area =
  a_id :: string
  a_name :: string

record User =
  u_id :: string
  subscriptionStatus :: "string option"
  trialEndDate :: "int option"

record MutationResult =
  success :: bool
  message :: "string option"

definition ok :: MutationResult where
  "ok = \<lparr>success = True, message = None\<rparr>"

definition failure :: "string \<Rightarrow> MutationResult" where
  "failure msg = \<lparr>success = False, message = Some msg\<rparr>"

section \<open>The state of the data provider and the document store\<close>

text \<open>
  \<^verbatim>\<open>DataProvider\<close> (contexts.tsx) holds the signed-in user's id and one array per
  collection, refreshed from the store after every committed write; the model keeps
  one copy of each collection. A collection is the list of its documents; the store
  keeps one document per id.
\<close>

record State =
  userId :: "string option"
  initialBillsLoaded :: bool
  customers :: "Customer list"
  payments :: "Payment list"
  areas :: "Area list"
  duePayments :: "DuePayment list"
  bills :: "Bill list"

text \<open>
  The three writes of the store on one collection, keyed by the document id:
  \<^verbatim>\<open>set\<close> replaces the document with that id or creates it, \<^verbatim>\<open>update\<close> changes fields of
  the document with that id, \<^verbatim>\<open>delete\<close> removes it.
\<close>

definition setDoc :: "('a \<Rightarrow> string) \<Rightarrow> 'a \<Rightarrow> 'a list \<Rightarrow> 'a list" where
  "setDoc key d ds =
     (if list_ex (\<lambda>x. key x = key d) ds
      then map (\<lambda>x. if key x = key d then d else x) ds
      else ds @ [d])"

definition updateDoc :: "('a \<Rightarrow> string) \<Rightarrow> string \<Rightarrow> ('a \<Rightarrow> 'a) \<Rightarrow> 'a list \<Rightarrow> 'a list" where
  "updateDoc key k f ds = map (\<lambda>x. if key x = k then f x else x) ds"

definition deleteDoc :: "('a \<Rightarrow> string) \<Rightarrow> string \<Rightarrow> 'a list \<Rightarrow> 'a list" where
  "deleteDoc key k ds = filter (\<lambda>x. key x \<noteq> k) ds"

text \<open>
  A write batch is the list of the writes queued on it, in the order of the calls.
  Each constructor is one shape of call that contexts.tsx makes:
  \<^item> \<open>SetBill\<close>, \<open>SetPayment\<close>, \<open>SetDuePayment\<close>, \<open>SetArea\<close>: \<^verbatim>\<open>batch.set(ref, data)\<close> and
    \<^verbatim>\<open>addDoc\<close>, the id of the reference stored in the record;
  \<^item> \<open>UpdateBillPaid billId paidDate paymentId\<close>:
    \<^verbatim>\<open>batch.update(billRef, {status: PAID, paidDate, paymentId})\<close>;
  \<^item> \<open>UpdateBillUnpaid billId\<close>:
    \<^verbatim>\<open>batch.update(billRef, {status: UNPAID, paidDate: deleteField(), paymentId: deleteField()})\<close>;
  \<^item> \<open>UpdateOpeningDue customerId v\<close>: \<^verbatim>\<open>batch.update(customerRef, {openingDue: v})\<close>;
  \<^item> \<open>UpdateDuePayment p\<close>: \<^verbatim>\<open>batch.update(duePaymentRef, data)\<close> with \<^verbatim>\<open>data\<close> the fields of
    \<open>p\<close> but its id; a key absent from \<^verbatim>\<open>data\<close> (the optional notes) keeps its stored value;
  \<^item> \<open>DeletePayment\<close>, \<open>DeleteDuePayment\<close>: \<^verbatim>\<open>batch.delete(ref)\<close>.
\<close>

datatype batchWrite =
    SetBill Bill
  | SetPayment Payment
  | SetDuePayment DuePayment
  | SetArea Area
  | UpdateBillPaid string string string
  | UpdateBillUnpaid string
  | UpdateOpeningDue string int
  | UpdateDuePayment DuePayment
  | DeletePayment string
  | DeleteDuePayment string

fun apply_write :: "State \<Rightarrow> batchWrite \<Rightarrow> State" where
  "apply_write s (SetBill b) = s\<lparr>bills := setDoc b_id b (bills s)\<rparr>"
| "apply_write s (SetPayment p) = s\<lparr>payments := setDoc p_id p (payments s)\<rparr>"
| "apply_write s (SetDuePayment p) = s\<lparr>duePayments := setDoc dp_id p (duePayments s)\<rparr>"
| "apply_write s (SetArea a) = s\<lparr>areas := setDoc a_id a (areas s)\<rparr>"
| "apply_write s (UpdateBillPaid k d pid) =
     s\<lparr>bills := updateDoc b_id k
            (\<lambda>b. b\<lparr>status := PAID, paidDate := Some d, paymentId := Some pid\<rparr>) (bills s)\<rparr>"
| "apply_write s (UpdateBillUnpaid k) =
     s\<lparr>bills := updateDoc b_id k
            (\<lambda>b. b\<lparr>status := UNPAID, paidDate := None, paymentId := None\<rparr>) (bills s)\<rparr>"
| "apply_write s (UpdateOpeningDue k v) =
     s\<lparr>customers := updateDoc c_id k (\<lambda>c. c\<lparr>openingDue := v\<rparr>) (customers s)\<rparr>"
| "apply_write s (UpdateDuePayment p) =
     s\<lparr>duePayments := updateDoc dp_id (dp_id p)
            (\<lambda>x. x\<lparr>dp_customerId := dp_customerId p, dp_amount := dp_amount p,
                   dp_date := dp_date p,
                   dp_notes := (case dp_notes p of None \<Rightarrow> dp_notes x | Some n \<Rightarrow> Some n)\<rparr>)
            (duePayments s)\<rparr>"
| "apply_write s (DeletePayment k) = s\<lparr>payments := deleteDoc p_id k (payments s)\<rparr>"
| "apply_write s (DeleteDuePayment k) = s\<lparr>duePayments := deleteDoc dp_id k (duePayments s)\<rparr>"

text \<open>
  \<^verbatim>\<open>batch.commit()\<close> applies the queued writes together. Every \<^verbatim>\<open>update\<close> that contexts.tsx
  queues names a document it has just found in the same collection, so the batch is
  taken to commit; a refusal of the store itself is outside the model.
\<close>

definition commit :: "State \<Rightarrow> batchWrite list \<Rightarrow> State" where
  "commit s ws = foldl apply_write s ws"

section \<open>Numbers of the platform\<close>









section \<open>Strings and dates of the platform\<close>

text \<open>
  A \<open>char\<close> is a code point below 256 (Basic Latin and Latin-1 Supplement), one UTF-16
  code unit each. On these, \<^verbatim>\<open>String.prototype.toLowerCase\<close> moves A to Z and the
  letters U+00C0 to U+00DE, but the sign U+00D7, to the code point 32 above, and leaves
  every other code point; \<^verbatim>\<open>trim\<close> strips the white space and line terminators of
  ECMAScript, which below 256 are U+0009 to U+000D, U+0020 and U+00A0.
\<close>

definition upperChars :: "char list" where
  "upperChars = ''ABCDEFGHIJKLMNOPQRSTUVWXYZ'' @
     [CHR 0xC0, CHR 0xC1, CHR 0xC2, CHR 0xC3, CHR 0xC4, CHR 0xC5, CHR 0xC6, CHR 0xC7,
      CHR 0xC8, CHR 0xC9, CHR 0xCA, CHR 0xCB, CHR 0xCC, CHR 0xCD, CHR 0xCE, CHR 0xCF,
      CHR 0xD0, CHR 0xD1, CHR 0xD2, CHR 0xD3, CHR 0xD4, CHR 0xD5, CHR 0xD6,
      CHR 0xD8, CHR 0xD9, CHR 0xDA, CHR 0xDB, CHR 0xDC, CHR 0xDD, CHR 0xDE]"

definition lowerChars :: "char list" where
  "lowerChars = ''abcdefghijklmnopqrstuvwxyz'' @
     [CHR 0xE0, CHR 0xE1, CHR 0xE2, CHR 0xE3, CHR 0xE4, CHR 0xE5, CHR 0xE6, CHR 0xE7,
      CHR 0xE8, CHR 0xE9, CHR 0xEA, CHR 0xEB, CHR 0xEC, CHR 0xED, CHR 0xEE, CHR 0xEF,
      CHR 0xF0, CHR 0xF1, CHR 0xF2, CHR 0xF3, CHR 0xF4, CHR 0xF5, CHR 0xF6,
      CHR 0xF8, CHR 0xF9, CHR 0xFA, CHR 0xFB, CHR 0xFC, CHR 0xFD, CHR 0xFE]"

definition lowerChar :: "char \<Rightarrow> char" where
  "lowerChar c = (case map_of (zip upperChars lowerChars) c of Some l \<Rightarrow> l | None \<Rightarrow> c)"

definition toLowerCase :: "string \<Rightarrow> string" where
  "toLowerCase s = map lowerChar s"

definition isSpace :: "char \<Rightarrow> bool" where
  "isSpace c \<longleftrightarrow> c \<in> set [CHR 0x09, CHR 0x0A, CHR 0x0B, CHR 0x0C, CHR 0x0D, CHR 0x20, CHR 0xA0]"

definition trim :: "string \<Rightarrow> string" where
  "trim s = rev (dropWhile isSpace (rev (dropWhile isSpace s)))"

text \<open>The decimal text of an integer, as a template literal prints it.\<close>

fun decimal :: "nat \<Rightarrow> string" where
  "decimal n =
     (if n < 10 then [''0123456789'' ! n]
      else decimal (n div 10) @ [''0123456789'' ! (n mod 10)])"

declare decimal.simps [simp del]

definition toString :: "int \<Rightarrow> string" where
  "toString i = (if i < 0 then CHR ''-'' # decimal (nat (- i)) else decimal (nat i))"

text \<open>\<^verbatim>\<open>a > b\<close> on two dates compares their time values.\<close>

definition dateGreater :: "Date \<Rightarrow> Date \<Rightarrow> bool" where
  "dateGreater a b \<longleftrightarrow>
     fullYear a > fullYear b \<or> (fullYear a = fullYear b \<and>
       (month a > month b \<or> (month a = month b \<and>
         (date a > date b \<or> (date a = date b \<and> msOfDay a > msOfDay b)))))"

definition isLeapYear :: "int \<Rightarrow> bool" where
  "isLeapYear y \<longleftrightarrow> (y mod 4 = 0 \<and> y mod 100 \<noteq> 0) \<or> y mod 400 = 0"

definition daysInMonth :: "int \<Rightarrow> nat \<Rightarrow> nat" where
  "daysInMonth y m =
     (if m = 1 then (if isLeapYear y then 29 else 28)
      else if m = 3 \<or> m = 5 \<or> m = 8 \<or> m = 10 then 30
      else 31)"

text \<open>
  \<^verbatim>\<open>new Date(text)\<close> on the text of a start date. The customer form stores the value of
  an \<^verbatim>\<open><input type="date">\<close>, the date-only form \<^verbatim>\<open>YYYY-MM-DD\<close> of the ECMAScript date-time
  string format. \<open>dateOnly\<close> reads its year, month index (from 0) and day. A date-only
  text is the midnight of that day in UTC, and the accessors answer in the local zone:
  \<open>zone\<close> is the offset of the local zone in minutes east of UTC (less than a day either
  way), so west of UTC the local date is the evening before. A day from 29 to 31 beyond
  the length of the month carries into the next month, as V8 reads it. Every other text
  is taken as an Invalid Date, \<open>None\<close>: the form writes none, and what an engine makes of
  a text outside the format is its own choice.
\<close>

definition digitValue :: "char \<Rightarrow> nat option" where
  "digitValue c = map_of (zip ''0123456789'' [0, 1, 2, 3, 4, 5, 6, 7, 8, 9]) c"

fun digitsValue :: "nat \<Rightarrow> string \<Rightarrow> nat option" where
  "digitsValue acc [] = Some acc"
| "digitsValue acc (c # cs) =
     (case digitValue c of None \<Rightarrow> None | Some d \<Rightarrow> digitsValue (10 * acc + d) cs)"

definition dateOnly :: "string \<Rightarrow> (int \<times> nat \<times> nat) option" where
  "dateOnly s =
     (if length s = 10 \<and> s ! 4 = CHR ''-'' \<and> s ! 7 = CHR ''-'' then
        (case (digitsValue 0 (take 4 s), digitsValue 0 (take 2 (drop 5 s)),
               digitsValue 0 (drop 8 s)) of
           (Some y, Some m, Some d) \<Rightarrow>
             if 1 \<le> m \<and> m \<le> 12 \<and> 1 \<le> d \<and> d \<le> 31 then Some (int y, m - 1, d) else None
         | _ \<Rightarrow> None)
      else None)"

definition carryDay :: "int \<times> nat \<times> nat \<Rightarrow> int \<times> nat \<times> nat" where
  "carryDay ymd =
     (case ymd of (y, m, d) \<Rightarrow>
        if d \<le> daysInMonth y m then (y, m, d)
        else if m < 11 then (y, m + 1, d - daysInMonth y m)
        else (y + 1, 0, d - daysInMonth y m))"

definition previousDay :: "int \<times> nat \<times> nat \<Rightarrow> int \<times> nat \<times> nat" where
  "previousDay ymd =
     (case ymd of (y, m, d) \<Rightarrow>
        if 1 < d then (y, m, d - 1)
        else if 0 < m then (y, m - 1, daysInMonth y (m - 1))
        else (y - 1, 11, 31))"

definition new_Date_text :: "int \<Rightarrow> string \<Rightarrow> Date option" where
  "new_Date_text zone s =
     (case dateOnly s of
        None \<Rightarrow> None
      | Some ymd \<Rightarrow>
          (case (if zone < 0 then previousDay (carryDay ymd) else carryDay ymd) of
             (y, m, d) \<Rightarrow>
               Some \<lparr>fullYear = y, month = m, date = d,
                     msOfDay = nat ((if zone < 0 then 1440 + zone else zone) * 60000)\<rparr>))"

text \<open>
  The constructor \<^verbatim>\<open>new Date(year, monthIndex, day)\<close> reads a year from 0 to 99 as
  1900 + year (ECMAScript, the Date constructor: ``if 0 \<open>\<le>\<close> yi \<open>\<le>\<close> 99, let yr be 1900 + yi'');
  \<^verbatim>\<open>setMonth\<close> has no such rule. A month index beyond 11 carries into the year.
\<close>

definition makeFullYear :: "int \<Rightarrow> int" where
  "makeFullYear y = (if 0 \<le> y \<and> y \<le> 99 then 1900 + y else y)"

text \<open>
  \<^verbatim>\<open>loopDate\<close> of the generator is always the first day of a month, at midnight: it
  is built by \<^verbatim>\<open>new Date(y, m, 1)\<close> and moved by \<^verbatim>\<open>setMonth\<close> only. It is kept as the pair
  of its \<^verbatim>\<open>getFullYear()\<close> and \<^verbatim>\<open>getMonth()\<close>.
\<close>

definition new_Date_day1 :: "int \<Rightarrow> nat \<Rightarrow> int \<times> nat" where
  "new_Date_day1 y m = (makeFullYear y + int (m div 12), m mod 12)"

definition setMonth :: "int \<times> nat \<Rightarrow> nat \<Rightarrow> int \<times> nat" where
  "setMonth loopDate k = (fst loopDate + int (k div 12), k mod 12)"

text \<open>
  \<^verbatim>\<open>new Date(year, monthIndex, 0)\<close>: day 0 is the day before the first day of the month
  with that index, at local midnight.
\<close>

definition new_Date_day0 :: "int \<Rightarrow> nat \<Rightarrow> Date" where
  "new_Date_day0 y m =
     (let yr = makeFullYear y + int (m div 12); mn = m mod 12 in
      if mn = 0 then \<lparr>fullYear = yr - 1, month = 11, date = 31, msOfDay = 0\<rparr>
      else \<lparr>fullYear = yr, month = mn - 1, date = daysInMonth yr (mn - 1), msOfDay = 0\<rparr>)"

section \<open>Bill generator (contexts.tsx, generateBills)\<close>

text \<open>
  The body of the \<^verbatim>\<open>while\<close> loop for one customer; the result is the list of the
  \<^verbatim>\<open>batch.set\<close> calls it makes. \<open>bills\<close> is the bill list the effect closed over.
\<close>

function billLoop :: "Customer \<Rightarrow> Bill list \<Rightarrow> int \<Rightarrow> nat \<Rightarrow> int \<times> nat \<Rightarrow> batchWrite list" where
  "billLoop customer bs currentYear currentMonth loopDate =
     (if fst loopDate < currentYear \<or> (fst loopDate = currentYear \<and> snd loopDate \<le> currentMonth)
      then
        (let year = fst loopDate;
             month = snd loopDate + 1;
             billId = c_id customer @ ''-'' @ toString year @ ''-'' @ toString (int month);
             billExists = list_ex (\<lambda>b. b_id b = billId) bs
         in (if \<not> billExists
             then [SetBill \<lparr>b_id = billId, b_customerId = c_id customer,
                     b_amount = monthlyBill customer, b_month = month, b_year = year,
                     status = UNPAID, dueDate = new_Date_day0 year month,
                     paidDate = None, paymentId = None, paidAmount = None\<rparr>]
             else [])
            @ billLoop customer bs currentYear currentMonth (setMonth loopDate (snd loopDate + 1)))
      else [])"
  by pat_completeness auto
termination
proof (relation "measure (\<lambda>(customer, bs, cy, cm, ld).
          if snd ld < 12
          then nat (12 * cy + int (max cm 11) + 1 - (12 * fst ld + int (snd ld)))
          else nat (12 * cy + int (max cm 11) - (12 * fst ld + int (snd ld))) + 1)", goal_cases)
  case 1
  show ?case by simp
next
  case (2 customer bs currentYear currentMonth loopDate)
  have "12 * (int (snd loopDate + 1) div 12) + int (snd loopDate + 1) mod 12 = int (snd loopDate + 1)"
    by (rule mult_div_mod_eq)
  then have step: "12 * int ((snd loopDate + 1) div 12) + int ((snd loopDate + 1) mod 12)
      = int (snd loopDate) + 1"
    by (simp add: zdiv_int zmod_int)
  from 2 step show ?case
    by (cases loopDate) (auto simp: setMonth_def algebra_simps)
qed

declare billLoop.simps [simp del]

text \<open>
  The callback of \<^verbatim>\<open>customers.forEach\<close>: the writes queued for one customer. \<open>start\<close> is
  the \<^verbatim>\<open>startDate\<close> of the code, \<^verbatim>\<open>new Date(customer.startDate)\<close>. On an Invalid Date the
  comparison \<^verbatim>\<open>startDate > currentDate\<close> is false, \<^verbatim>\<open>loopDate\<close> is an Invalid Date too and
  both comparisons of the loop condition are false: nothing is queued.
\<close>

definition billsForCustomer :: "int \<Rightarrow> Date \<Rightarrow> Bill list \<Rightarrow> Customer \<Rightarrow> batchWrite list" where
  "billsForCustomer zone currentDate bs customer =
     (let currentYear = fullYear currentDate;
          currentMonth = month currentDate
      in if connectionStatus customer = ACTIVE then
           (case new_Date_text zone (startDate customer) of
              None \<Rightarrow> []
            | Some start \<Rightarrow>
                if dateGreater start currentDate then []
                else billLoop customer bs currentYear currentMonth
                       (new_Date_day1 (fullYear start) (month start)))
         else [])"

definition generateBills :: "int \<Rightarrow> Date \<Rightarrow> State \<Rightarrow> batchWrite list" where
  "generateBills zone currentDate s =
     (if userId s = None \<or> \<not> initialBillsLoaded s \<or> customers s = [] then []
      else concat (map (billsForCustomer zone currentDate (bills s)) (customers s)))"

text \<open>One run of the effect: the batch it builds, committed.\<close>

definition runGenerator :: "int \<Rightarrow> Date \<Rightarrow> State \<Rightarrow> State" where
  "runGenerator zone currentDate s = commit s (generateBills zone currentDate s)"

section \<open>Payment reconciler (contexts.tsx, addPayment and deletePayment)\<close>

text \<open>
  \<^verbatim>\<open>getCustomerById\<close> is \<^verbatim>\<open>customers.find(c => c.id === id)\<close>.
\<close>

definition getCustomerById :: "State \<Rightarrow> string \<Rightarrow> Customer option" where
  "getCustomerById s i = find (\<lambda>c. c_id c = i) (customers s)"

text \<open>\<^verbatim>\<open>x || 0\<close> on a number.\<close>

definition orZero :: "int \<Rightarrow> int" where
  "orZero x = (if x = 0 then 0 else x)"

text \<open>
  The \<^verbatim>\<open>for\<close> loop of \<^verbatim>\<open>addPayment\<close> over \<^verbatim>\<open>Object.keys(billsToPay)\<close>. \<^verbatim>\<open>billsToPay\<close> is the list
  of its entries, each key with \<^verbatim>\<open>billsToPay[key]\<close>; \<open>paid\<close> is the source's \<^verbatim>\<open>paidAmount\<close>
  (a field of \<open>Bill\<close> has that name). The loop carries \<^verbatim>\<open>totalDueDifference\<close> and the
  batch, and \<^verbatim>\<open>continue\<close>s on a key that \<^verbatim>\<open>bills.find\<close> does not find.
\<close>

fun payLoop :: "Bill list \<Rightarrow> string \<Rightarrow> string \<Rightarrow> (string \<times> int) list \<Rightarrow> int \<Rightarrow> batchWrite list
    \<Rightarrow> int \<times> batchWrite list" where
  "payLoop bs paidOn newId [] totalDueDifference batch = (totalDueDifference, batch)"
| "payLoop bs paidOn newId ((billId, paid) # rest) totalDueDifference batch =
     (case find (\<lambda>b. b_id b = billId) bs of
        None \<Rightarrow> payLoop bs paidOn newId rest totalDueDifference batch
      | Some originalBill \<Rightarrow>
          (let dueDifference = b_amount originalBill - paid
           in payLoop bs paidOn newId rest
                (if dueDifference > 0 then totalDueDifference + dueDifference else totalDueDifference)
                (batch @ [UpdateBillPaid billId paidOn newId])))"

text \<open>
  \<open>newId\<close> is the id that \<^verbatim>\<open>doc(paymentCollection)\<close> generates for the new payment;
  \<open>paymentData\<close> is an \<^verbatim>\<open>Omit<Payment, 'id'>\<close>, its \<open>p_id\<close> is not read. The customer
  snapshot is read from the store; a missing customer throws inside the \<^verbatim>\<open>try\<close> and
  the \<^verbatim>\<open>catch\<close> answers with the failure message, nothing committed.
\<close>

definition addPaymentBatch :: "State \<Rightarrow> string \<Rightarrow> Payment \<Rightarrow> (string \<times> int) list \<Rightarrow> Customer
    \<Rightarrow> batchWrite list" where
  "addPaymentBatch s newId paymentData billsToPay customerSnap =
     (let (totalDueDifference, batch) =
            payLoop (bills s) (p_date paymentData) newId billsToPay 0
              [SetPayment (paymentData\<lparr>p_id := newId\<rparr>)]
      in if totalDueDifference > 0
         then batch @ [UpdateOpeningDue (p_customerId paymentData)
                         (orZero (openingDue customerSnap) + totalDueDifference)]
         else batch)"

definition addPayment :: "State \<Rightarrow> string \<Rightarrow> Payment \<Rightarrow> (string \<times> int) list \<Rightarrow> MutationResult \<times> State" where
  "addPayment s newId paymentData billsToPay =
     (if userId s = None then (failure ''User not authenticated.'', s)
      else
        (case find (\<lambda>c. c_id c = p_customerId paymentData) (customers s) of
           None \<Rightarrow> (failure ''Failed to add payment.'', s)
         | Some customerSnap \<Rightarrow>
             (ok, commit s (addPaymentBatch s newId paymentData billsToPay customerSnap))))"

definition deletePayment :: "State \<Rightarrow> string \<Rightarrow> MutationResult \<times> State" where
  "deletePayment s pid =
     (if userId s = None then (failure ''User not authenticated.'', s)
      else
        (let billsToUpdate = filter (\<lambda>b. paymentId b = Some pid) (bills s);
             batch = map (\<lambda>bill. UpdateBillUnpaid (b_id bill)) billsToUpdate @ [DeletePayment pid]
         in (ok, commit s batch)))"

section \<open>Due-ledger manager (contexts.tsx)\<close>

text \<open>
  \<open>newId\<close> is the id generated for the new due payment; \<open>paymentData\<close> is an
  \<^verbatim>\<open>Omit<DuePayment, 'id'>\<close>.
\<close>

definition addDuePayment :: "State \<Rightarrow> string \<Rightarrow> DuePayment \<Rightarrow> MutationResult \<times> State" where
  "addDuePayment s newId paymentData =
     (if userId s = None then (failure ''User not authenticated.'', s)
      else
        (case getCustomerById s (dp_customerId paymentData) of
           None \<Rightarrow> (failure ''Customer not found.'', s)
         | Some customer \<Rightarrow>
             (let newOpeningDue = openingDue customer - dp_amount paymentData
              in (ok, commit s [SetDuePayment (paymentData\<lparr>dp_id := newId\<rparr>),
                                UpdateOpeningDue (c_id customer) newOpeningDue]))))"

definition updateDuePayment :: "State \<Rightarrow> DuePayment \<Rightarrow> MutationResult \<times> State" where
  "updateDuePayment s updatedPayment =
     (if userId s = None then (failure ''User not authenticated.'', s)
      else
        (case (find (\<lambda>p. dp_id p = dp_id updatedPayment) (duePayments s),
               getCustomerById s (dp_customerId updatedPayment)) of
           (Some originalPayment, Some customer) \<Rightarrow>
             (let amountDifference = dp_amount updatedPayment - dp_amount originalPayment;
                  newOpeningDue = openingDue customer - amountDifference
              in (ok, commit s [UpdateDuePayment updatedPayment,
                                UpdateOpeningDue (c_id customer) newOpeningDue]))
         | _ \<Rightarrow> (failure ''Payment or customer not found.'', s)))"

definition deleteDuePayment :: "State \<Rightarrow> string \<Rightarrow> MutationResult \<times> State" where
  "deleteDuePayment s pid =
     (if userId s = None then (failure ''User not authenticated.'', s)
      else
        (let paymentToDelete = find (\<lambda>p. dp_id p = pid) (duePayments s);
             customer = (case paymentToDelete of
                           Some p \<Rightarrow> getCustomerById s (dp_customerId p)
                         | None \<Rightarrow> None)
         in (case (paymentToDelete, customer) of
               (Some p, Some c) \<Rightarrow>
                 (let newOpeningDue = openingDue c + dp_amount p
                  in (ok, commit s [DeleteDuePayment pid, UpdateOpeningDue (c_id c) newOpeningDue]))
             | _ \<Rightarrow> (failure ''Payment or customer not found.'', s))))"




section \<open>Areas (contexts.tsx, addArea)\<close>


section \<open>Access gate (useSubscriptionStatus)\<close>

text \<open>
  \<open>user\<close> is \<open>None\<close> while nobody is signed in. \<open>subscriptionStatus\<close> is the stored text
  (\<open>None\<close> when the field is missing); \<open>trialEndDate\<close> is the time value, in
  milliseconds, of \<^verbatim>\<open>new Date(user.trialEndDate)\<close>, \<open>None\<close> when the field is missing or
  the empty string.

  The hook keeps two memoised values between the renders of a component:
  \<^verbatim>\<open>trialEndDate\<close>, recomputed when the \<^verbatim>\<open>user\<close> object is not the one of the previous
  render, and \<^verbatim>\<open>trialDaysLeft\<close>, recomputed when \<^verbatim>\<open>trialEndDate\<close> is not the one of the
  previous render. A recomputed end date is a new \<^verbatim>\<open>Date\<close> object, so it counts as changed
  unless it was \<^verbatim>\<open>null\<close> and is \<^verbatim>\<open>null\<close> again. \<open>GateMemo\<close> is that pair.
\<close>

record SubscriptionInfo =
  gateStatus :: string
  isSubscribed :: bool
  isTrialActive :: bool
  isPending :: bool
  trialDaysLeft :: int
  isLocked :: bool

record GateMemo =
  memoEndDate :: "int option"
  memoDaysLeft :: int

text \<open>The callback of the second \<^verbatim>\<open>useMemo\<close>; \<open>now\<close> is \<^verbatim>\<open>new Date().getTime()\<close> when it runs.\<close>

definition computeDaysLeft :: "int option \<Rightarrow> int \<Rightarrow> int" where
  "computeDaysLeft trialEnd now =
     (case trialEnd of
        None \<Rightarrow> 0
      | Some e \<Rightarrow>
          (let diffTime = e - now
           in max 0 \<lceil>real_of_int diffTime / (1000 * 60 * 60 * 24)\<rceil>))"

text \<open>
  One render of the hook. \<open>memo\<close> is \<open>None\<close> at the first render of the component,
  \<open>userChanged\<close> is React's comparison of the dependency \<^verbatim>\<open>user\<close> with the previous
  render's, \<open>now\<close> is the clock at this render. The result is what the hook returns and
  the memo it leaves for the next render.
\<close>

definition useSubscriptionStatus ::
    "GateMemo option \<Rightarrow> bool \<Rightarrow> User option \<Rightarrow> int \<Rightarrow> SubscriptionInfo \<times> GateMemo" where
  "useSubscriptionStatus memo userChanged user now =
     (let trimmed = (case user of
                       None \<Rightarrow> None
                     | Some u \<Rightarrow> map_option (\<lambda>t. toLowerCase (trim t)) (subscriptionStatus u));
          st = (case trimmed of
                  None \<Rightarrow> ''free_trial''
                | Some t \<Rightarrow> if t = [] then ''free_trial'' else t);
          subscribed = (st = ''active'');
          pending = (st = ''pending'');
          computedEnd = (case user of None \<Rightarrow> None | Some u \<Rightarrow> trialEndDate u);
          computed = \<lparr>memoEndDate = computedEnd, memoDaysLeft = computeDaysLeft computedEnd now\<rparr>;
          memo' = (case memo of
                     None \<Rightarrow> computed
                   | Some m \<Rightarrow>
                       if userChanged
                       then (if memoEndDate m = None \<and> computedEnd = None then m else computed)
                       else m);
          daysLeft = memoDaysLeft memo';
          trialActive = (st = ''free_trial'' \<and> daysLeft > 0);
          locked = (\<not> subscribed \<and> \<not> trialActive \<and> \<not> pending)
      in (\<lparr>gateStatus = st, isSubscribed = subscribed, isTrialActive = trialActive,
           isPending = pending, trialDaysLeft = daysLeft, isLocked = locked\<rparr>, memo'))"

section \<open>Observations used by the properties\<close>

text \<open>The opening due of the customer with a given id, as \<^verbatim>\<open>getCustomerById\<close> reads it.\<close>

definition dueOf :: "State \<Rightarrow> string \<Rightarrow> int option" where
  "dueOf s cid = map_option openingDue (getCustomerById s cid)"

text \<open>An operation answered with a failure and the state it returns is the state it got.\<close>

definition failedUnchanged :: "MutationResult \<times> State \<Rightarrow> State \<Rightarrow> bool" where
  "failedUnchanged r s \<longleftrightarrow> \<not> success (fst r) \<and> snd r = s"

text \<open>
  The entries of \<^verbatim>\<open>billsToPay\<close> whose key is the id of a bill of the list, and the unpaid
  remainder of one entry: \<open>max 0 (bill.amount - amountApplied)\<close> for the bill the key
  names.
\<close>

definition presentEntries :: "Bill list \<Rightarrow> (string \<times> int) list \<Rightarrow> (string \<times> int) list" where
  "presentEntries bs billsToPay =
     filter (\<lambda>e. find (\<lambda>b. b_id b = fst e) bs \<noteq> None) billsToPay"

definition shortfall :: "Bill list \<Rightarrow> string \<times> int \<Rightarrow> int" where
  "shortfall bs e = max 0 (b_amount (the (find (\<lambda>b. b_id b = fst e) bs)) - snd e)"

text \<open>
  The bill key \<^verbatim>\<open>`${customer.id}-${year}-${month}`\<close> as a function, and the property of
  a bill list that every bill's id is the key of its customer, year and month.
\<close>

definition billKey :: "string \<Rightarrow> int \<Rightarrow> nat \<Rightarrow> string" where
  "billKey cid y m = cid @ ''-'' @ toString y @ ''-'' @ toString (int m)"

definition keyed :: "Bill list \<Rightarrow> bool" where
  "keyed bs \<longleftrightarrow> list_all (\<lambda>b. b_id b = billKey (b_customerId b) (b_year b) (b_month b)) bs"

text \<open>
  The generator as the specification words it. \<open>monthsBetween\<close> lists every calendar
  month, as (year, month from 1 to 12), from the month of the start date through the
  current month inclusive, in order; both arguments are a year and a month index from 0.
  \<open>specBill\<close> is the bill the specification asks for one month: the customer's monthly
  amount, Unpaid, due on the last day of that month. The month of the start date is the
  one its text names (\<^verbatim>\<open>2024-01-15\<close> is in January 2024).
\<close>

definition monthsBetween :: "int \<times> nat \<Rightarrow> int \<times> nat \<Rightarrow> (int \<times> nat) list" where
  "monthsBetween start current =
     map (\<lambda>k. (k div 12, nat (k mod 12) + 1))
       [12 * fst start + int (snd start) .. 12 * fst current + int (snd current)]"

definition specBill :: "Customer \<Rightarrow> int \<times> nat \<Rightarrow> Bill" where
  "specBill customer ym =
     \<lparr>b_id = billKey (c_id customer) (fst ym) (snd ym), b_customerId = c_id customer,
      b_amount = monthlyBill customer, b_month = snd ym, b_year = fst ym, status = UNPAID,
      dueDate = \<lparr>fullYear = fst ym, month = snd ym - 1,
                 date = daysInMonth (fst ym) (snd ym - 1), msOfDay = 0\<rparr>,
      paidDate = None, paymentId = None, paidAmount = None\<rparr>"

definition specBillsFor :: "Date \<Rightarrow> Bill list \<Rightarrow> Customer \<Rightarrow> batchWrite list" where
  "specBillsFor currentDate bs customer =
     (case dateOnly (startDate customer) of
        None \<Rightarrow> []
      | Some (y, m, d) \<Rightarrow>
          map (\<lambda>ym. SetBill (specBill customer ym))
            (filter (\<lambda>ym. \<not> list_ex (\<lambda>b. b_id b = billKey (c_id customer) (fst ym) (snd ym)) bs)
               (monthsBetween (y, m) (fullYear currentDate, month currentDate))))"

text \<open>A queued \<^verbatim>\<open>set\<close> of a bill whose id no bill of the list carries.\<close>

definition absentIn :: "Bill list \<Rightarrow> batchWrite \<Rightarrow> bool" where
  "absentIn bs w = (case w of SetBill b \<Rightarrow> \<not> list_ex (\<lambda>x. b_id x = b_id b) bs | _ \<Rightarrow> True)"

text \<open>A batch that holds \<^verbatim>\<open>set\<close> calls on bills only.\<close>

definition onlySetBill :: "batchWrite list \<Rightarrow> bool" where
  "onlySetBill ws \<longleftrightarrow> list_all (\<lambda>w. case w of SetBill b \<Rightarrow> True | _ \<Rightarrow> False) ws"

text \<open>The fields that the two bill updates of the reconciler write.\<close>

definition markPaid :: "string \<Rightarrow> string \<Rightarrow> Bill \<Rightarrow> Bill" where
  "markPaid d i b = b\<lparr>status := PAID, paidDate := Some d, paymentId := Some i\<rparr>"

definition markUnpaid :: "Bill \<Rightarrow> Bill" where
  "markUnpaid b = b\<lparr>status := UNPAID, paidDate := None, paymentId := None\<rparr>"

text \<open>What a bill shows of a payment: its status, paid date and payment reference.\<close>

definition billState :: "Bill \<Rightarrow> string \<times> BillStatus \<times> string option \<times> string option" where
  "billState b = (b_id b, status b, paidDate b, paymentId b)"

text \<open>The inputs of the worked examples.\<close>

definition jan15 :: Date where
  "jan15 = \<lparr>fullYear = 2024, month = 0, date = 15, msOfDay = 0\<rparr>"

definition mar20 :: Date where
  "mar20 = \<lparr>fullYear = 2024, month = 2, date = 20, msOfDay = 43200000\<rparr>"

definition exCustomer :: Customer where
  "exCustomer = \<lparr>c_id = ''c1'', c_name = ''Rahim'', phone = ''017'', address = ''Mirpur'',
     area = ''Mirpur'', monthlyBill = 500, connectionStatus = ACTIVE,
     startDate = ''2024-01-15'',
     openingDue = 400, reactivationDate = None\<rparr>"

text \<open>
  A customer whose start date is 15 December of the year 99, and one who starts on
  1 March 2024.
\<close>

definition exOld :: Customer where
  "exOld = exCustomer\<lparr>c_id := ''c9'', startDate := ''0099-12-15''\<rparr>"

definition exMarch :: Customer where
  "exMarch = exCustomer\<lparr>c_id := ''c7'', startDate := ''2024-03-01''\<rparr>"

definition exState :: State where
  "exState = \<lparr>userId = Some ''u1'', initialBillsLoaded = True, customers = [exCustomer],
     payments = [], areas = [], duePayments = [], bills = []\<rparr>"

definition exDuePayment :: DuePayment where
  "exDuePayment = \<lparr>dp_id = [], dp_customerId = ''c1'', dp_amount = 150,
     dp_date = ''2024-03-20T00:00:00.000Z'', dp_notes = None\<rparr>"


definition exBill :: Bill where
  "exBill = \<lparr>b_id = ''c1-2024-1'', b_customerId = ''c1'', b_amount = 500, b_month = 1,
     b_year = 2024, status = UNPAID,
     dueDate = \<lparr>fullYear = 2024, month = 0, date = 31, msOfDay = 0\<rparr>,
     paidDate = None, paymentId = None, paidAmount = None\<rparr>"

definition exPayment :: Payment where
  "exPayment = \<lparr>p_id = [], p_customerId = ''c1'', p_amount = 300,
     p_date = ''2024-03-20T00:00:00.000Z'', p_notes = Some ''Paid for 1 bill(s).''\<rparr>"

text \<open>The example state with one unpaid bill of 500 and an opening due of 200.\<close>

definition exBilled :: State where
  "exBilled = exState\<lparr>customers := [exCustomer\<lparr>openingDue := 200\<rparr>], bills := [exBill]\<rparr>"






text \<open>
  The \<^verbatim>\<open>status\<close> of \<^verbatim>\<open>useSubscriptionStatus\<close> as a function of the user, and the days left
  that a recomputation at the time \<open>now\<close> gives for the user's trial end date.
\<close>

definition normalizedStatus :: "User option \<Rightarrow> string" where
  "normalizedStatus user =
     (case user of
        None \<Rightarrow> ''free_trial''
      | Some u \<Rightarrow>
          (case subscriptionStatus u of
             None \<Rightarrow> ''free_trial''
           | Some t \<Rightarrow> if toLowerCase (trim t) = [] then ''free_trial'' else toLowerCase (trim t)))"

definition daysUntil :: "User option \<Rightarrow> int \<Rightarrow> int" where
  "daysUntil user now =
     computeDaysLeft (case user of None \<Rightarrow> None | Some u \<Rightarrow> trialEndDate u) now"

definition exUser :: User where
  "exUser = \<lparr>u_id = ''u1'', subscriptionStatus = Some ''free_trial'', trialEndDate = Some 172800001\<rparr>"

text \<open>The example after a payment of 300 against the bill of 500, recorded as \<open>pay1\<close>.\<close>

definition exPaid :: State where
  "exPaid = snd (addPayment exBilled ''pay1'' exPayment [(''c1-2024-1'', 300)])"

section \<open>Lookups after a write\<close>

lemma find_updateDoc:
  assumes "\<And>x. key (f x) = key x"
  shows "find (\<lambda>x. key x = k) (updateDoc key k' f ds) =
         (if k = k' then map_option f (find (\<lambda>x. key x = k) ds) else find (\<lambda>x. key x = k) ds)"
  using assms by (induction ds) (auto simp: updateDoc_def)

lemma find_setDoc_same: "find (\<lambda>x. key x = key d) (setDoc key d ds) = Some d"
proof (cases "list_ex (\<lambda>x. key x = key d) ds")
  case True
  then have "find (\<lambda>x. key x = key d) (map (\<lambda>x. if key x = key d then d else x) ds) = Some d"
    by (induction ds) auto
  with True show ?thesis by (simp add: setDoc_def)
next
  case False
  then have "find (\<lambda>x. key x = key d) (ds @ [d]) = Some d"
    by (induction ds) auto
  with False show ?thesis by (simp add: setDoc_def)
qed

lemma find_deleteDoc:
  "find (\<lambda>x. key x = k) (deleteDoc key k' ds) =
     (if k = k' then None else find (\<lambda>x. key x = k) ds)"
  by (induction ds) (auto simp: deleteDoc_def)

lemma find_Some_key: "find (\<lambda>x. key x = k) ds = Some x \<Longrightarrow> key x = k"
  by (induction ds) (auto split: if_splits)

lemma getCustomerById_due_batch:
  assumes "w = SetDuePayment p \<or> w = UpdateDuePayment p \<or> w = DeleteDuePayment k'"
  shows "getCustomerById (commit s [w, UpdateOpeningDue k v]) k =
         map_option (\<lambda>c. c\<lparr>openingDue := v\<rparr>) (getCustomerById s k)"
  using assms by (auto simp: getCustomerById_def commit_def find_updateDoc)

lemma userId_commit: "userId (commit s ws) = userId s"
proof (induction ws arbitrary: s)
  case Nil
  show ?case by (simp add: commit_def)
next
  case (Cons w ws)
  have "userId (apply_write s w) = userId s" by (cases w) simp_all
  with Cons[of "apply_write s w"] show ?case by (simp add: commit_def)
qed

section \<open>Numbers of the platform: properties\<close>








section \<open>Due-ledger manager: properties\<close>






text \<open>
  Claim C7. Each of \<open>addDuePayment\<close>, \<open>updateDuePayment\<close> and \<open>deleteDuePayment\<close> answers
  with a failure and returns the state it was given whenever the customer (for update
  and delete also the stored due payment) is not found. On every input each of the
  three either fails so, or succeeds with both writes of its batch in effect: the
  due-payment record written (or removed) and the opening due adjusted together.
\<close>

theorem due_ledger_all_or_nothing:
  "(getCustomerById s (dp_customerId pd) = None \<longrightarrow>
      failedUnchanged (addDuePayment s newId pd) s) \<and>
   (find (\<lambda>p. dp_id p = dp_id upd) (duePayments s) = None \<or>
    getCustomerById s (dp_customerId upd) = None \<longrightarrow>
      failedUnchanged (updateDuePayment s upd) s) \<and>
   (find (\<lambda>p. dp_id p = pid) (duePayments s) = None \<or>
    (\<exists>p. find (\<lambda>p. dp_id p = pid) (duePayments s) = Some p \<and>
         getCustomerById s (dp_customerId p) = None) \<longrightarrow>
      failedUnchanged (deleteDuePayment s pid) s) \<and>
   (failedUnchanged (addDuePayment s newId pd) s \<or>
    (\<exists>c. getCustomerById s (dp_customerId pd) = Some c \<and>
         success (fst (addDuePayment s newId pd)) \<and>
         find (\<lambda>p. dp_id p = newId) (duePayments (snd (addDuePayment s newId pd)))
           = Some (pd\<lparr>dp_id := newId\<rparr>) \<and>
         dueOf (snd (addDuePayment s newId pd)) (dp_customerId pd)
           = Some (openingDue c - dp_amount pd))) \<and>
   (failedUnchanged (updateDuePayment s upd) s \<or>
    (\<exists>orig c. find (\<lambda>p. dp_id p = dp_id upd) (duePayments s) = Some orig \<and>
         getCustomerById s (dp_customerId upd) = Some c \<and>
         success (fst (updateDuePayment s upd)) \<and>
         map_option dp_amount
           (find (\<lambda>p. dp_id p = dp_id upd) (duePayments (snd (updateDuePayment s upd))))
           = Some (dp_amount upd) \<and>
         dueOf (snd (updateDuePayment s upd)) (dp_customerId upd)
           = Some (openingDue c - (dp_amount upd - dp_amount orig)))) \<and>
   (failedUnchanged (deleteDuePayment s pid) s \<or>
    (\<exists>p c. find (\<lambda>p. dp_id p = pid) (duePayments s) = Some p \<and>
         getCustomerById s (dp_customerId p) = Some c \<and>
         success (fst (deleteDuePayment s pid)) \<and>
         find (\<lambda>p. dp_id p = pid) (duePayments (snd (deleteDuePayment s pid))) = None \<and>
         dueOf (snd (deleteDuePayment s pid)) (dp_customerId p)
           = Some (openingDue c + dp_amount p)))"
proof (intro conjI impI)
  assume "getCustomerById s (dp_customerId pd) = None"
  then show "failedUnchanged (addDuePayment s newId pd) s"
    by (simp add: addDuePayment_def failedUnchanged_def failure_def)
next
  assume "find (\<lambda>p. dp_id p = dp_id upd) (duePayments s) = None \<or>
    getCustomerById s (dp_customerId upd) = None"
  then show "failedUnchanged (updateDuePayment s upd) s"
    by (auto simp: updateDuePayment_def failedUnchanged_def failure_def split: option.splits)
next
  assume "find (\<lambda>p. dp_id p = pid) (duePayments s) = None \<or>
    (\<exists>p. find (\<lambda>p. dp_id p = pid) (duePayments s) = Some p \<and>
         getCustomerById s (dp_customerId p) = None)"
  then show "failedUnchanged (deleteDuePayment s pid) s"
    by (auto simp: deleteDuePayment_def failedUnchanged_def failure_def Let_def split: option.splits)
next
  show "failedUnchanged (addDuePayment s newId pd) s \<or>
    (\<exists>c. getCustomerById s (dp_customerId pd) = Some c \<and>
         success (fst (addDuePayment s newId pd)) \<and>
         find (\<lambda>p. dp_id p = newId) (duePayments (snd (addDuePayment s newId pd)))
           = Some (pd\<lparr>dp_id := newId\<rparr>) \<and>
         dueOf (snd (addDuePayment s newId pd)) (dp_customerId pd)
           = Some (openingDue c - dp_amount pd))"
  proof (cases "userId s \<noteq> None \<and> getCustomerById s (dp_customerId pd) \<noteq> None")
    case False
    then show ?thesis
      by (auto simp: addDuePayment_def failedUnchanged_def failure_def)
  next
    case True
    then obtain c where c: "getCustomerById s (dp_customerId pd) = Some c" by auto
    have cid: "c_id c = dp_customerId pd"
      using c find_Some_key[of c_id "dp_customerId pd" "customers s" c]
      by (simp add: getCustomerById_def)
    have r: "addDuePayment s newId pd =
        (ok, commit s [SetDuePayment (pd\<lparr>dp_id := newId\<rparr>),
                       UpdateOpeningDue (dp_customerId pd) (openingDue c - dp_amount pd)])"
      using True c cid by (auto simp: addDuePayment_def)
    have f: "find (\<lambda>p. dp_id p = newId) (duePayments (snd (addDuePayment s newId pd)))
        = Some (pd\<lparr>dp_id := newId\<rparr>)"
      using find_setDoc_same[of dp_id "pd\<lparr>dp_id := newId\<rparr>" "duePayments s"]
      by (simp add: r commit_def)
    have d: "dueOf (snd (addDuePayment s newId pd)) (dp_customerId pd)
        = Some (openingDue c - dp_amount pd)"
      using c by (simp add: r dueOf_def getCustomerById_due_batch)
    show ?thesis using c f d by (simp add: r ok_def)
  qed
next
  show "failedUnchanged (updateDuePayment s upd) s \<or>
    (\<exists>orig c. find (\<lambda>p. dp_id p = dp_id upd) (duePayments s) = Some orig \<and>
         getCustomerById s (dp_customerId upd) = Some c \<and>
         success (fst (updateDuePayment s upd)) \<and>
         map_option dp_amount
           (find (\<lambda>p. dp_id p = dp_id upd) (duePayments (snd (updateDuePayment s upd))))
           = Some (dp_amount upd) \<and>
         dueOf (snd (updateDuePayment s upd)) (dp_customerId upd)
           = Some (openingDue c - (dp_amount upd - dp_amount orig)))"
  proof (cases "userId s \<noteq> None \<and> find (\<lambda>p. dp_id p = dp_id upd) (duePayments s) \<noteq> None
      \<and> getCustomerById s (dp_customerId upd) \<noteq> None")
    case False
    then show ?thesis
      by (auto simp: updateDuePayment_def failedUnchanged_def failure_def split: option.splits)
  next
    case True
    then obtain orig c where o: "find (\<lambda>p. dp_id p = dp_id upd) (duePayments s) = Some orig"
      and c: "getCustomerById s (dp_customerId upd) = Some c" by auto
    have cid: "c_id c = dp_customerId upd"
      using c find_Some_key[of c_id "dp_customerId upd" "customers s" c]
      by (simp add: getCustomerById_def)
    have r: "updateDuePayment s upd =
        (ok, commit s [UpdateDuePayment upd,
               UpdateOpeningDue (dp_customerId upd) (openingDue c - (dp_amount upd - dp_amount orig))])"
      using True o c cid by (auto simp: updateDuePayment_def)
    have f: "map_option dp_amount
           (find (\<lambda>p. dp_id p = dp_id upd) (duePayments (snd (updateDuePayment s upd))))
           = Some (dp_amount upd)"
      using o by (simp add: r commit_def find_updateDoc)
    have d: "dueOf (snd (updateDuePayment s upd)) (dp_customerId upd)
           = Some (openingDue c - (dp_amount upd - dp_amount orig))"
      using c by (simp add: r dueOf_def getCustomerById_due_batch)
    show ?thesis using o c f d by (simp add: r ok_def)
  qed
next
  show "failedUnchanged (deleteDuePayment s pid) s \<or>
    (\<exists>p c. find (\<lambda>p. dp_id p = pid) (duePayments s) = Some p \<and>
         getCustomerById s (dp_customerId p) = Some c \<and>
         success (fst (deleteDuePayment s pid)) \<and>
         find (\<lambda>p. dp_id p = pid) (duePayments (snd (deleteDuePayment s pid))) = None \<and>
         dueOf (snd (deleteDuePayment s pid)) (dp_customerId p)
           = Some (openingDue c + dp_amount p))"
  proof (cases "userId s \<noteq> None \<and> (\<exists>p c. find (\<lambda>p. dp_id p = pid) (duePayments s) = Some p
      \<and> getCustomerById s (dp_customerId p) = Some c)")
    case False
    then show ?thesis
      by (auto simp: deleteDuePayment_def failedUnchanged_def failure_def Let_def split: option.splits)
  next
    case True
    then obtain p c where o: "find (\<lambda>p. dp_id p = pid) (duePayments s) = Some p"
      and c: "getCustomerById s (dp_customerId p) = Some c" by auto
    have cid: "c_id c = dp_customerId p"
      using c find_Some_key[of c_id "dp_customerId p" "customers s" c]
      by (simp add: getCustomerById_def)
    have r: "deleteDuePayment s pid =
        (ok, commit s [DeleteDuePayment pid,
               UpdateOpeningDue (dp_customerId p) (openingDue c + dp_amount p)])"
      using True o c cid by (auto simp: deleteDuePayment_def)
    have f: "find (\<lambda>p. dp_id p = pid) (duePayments (snd (deleteDuePayment s pid))) = None"
      by (simp add: r commit_def find_deleteDoc)
    have d: "dueOf (snd (deleteDuePayment s pid)) (dp_customerId p)
           = Some (openingDue c + dp_amount p)"
      using c by (simp add: r dueOf_def getCustomerById_due_batch)
    show ?thesis using o c f d by (simp add: r ok_def)
  qed
qed


text \<open>An unknown customer id and an unknown due-payment id on the example state.\<close>

theorem due_ledger_all_or_nothing_witness:
  "getCustomerById exState ''zz'' = None \<and>
   failedUnchanged (addDuePayment exState ''d1'' (exDuePayment\<lparr>dp_customerId := ''zz''\<rparr>)) exState \<and>
   find (\<lambda>p. dp_id p = ''d9'') (duePayments exState) = None \<and>
   failedUnchanged (updateDuePayment exState (exDuePayment\<lparr>dp_id := ''d9''\<rparr>)) exState \<and>
   failedUnchanged (deleteDuePayment exState ''d9'') exState"
proof -
  have h1: "getCustomerById exState ''zz'' = None"
    by (simp add: getCustomerById_def exState_def exCustomer_def)
  have h2: "find (\<lambda>p. dp_id p = ''d9'') (duePayments exState) = None"
    by (simp add: exState_def)
  from due_ledger_all_or_nothing[where s = exState
      and pd = "exDuePayment\<lparr>dp_customerId := ''zz''\<rparr>" and newId = "''d1''"
      and upd = "exDuePayment\<lparr>dp_id := ''d9''\<rparr>" and pid = "''d9''"]
  show ?thesis using h1 h2 by simp
qed

section \<open>Payment reconciler: properties\<close>

lemma commit_append: "commit s (xs @ ys) = commit (commit s xs) ys"
  by (simp add: commit_def)

lemma commit_Cons: "commit s (w # ws) = commit (apply_write s w) ws"
  by (simp add: commit_def)

lemma commit_Nil: "commit s [] = s"
  by (simp add: commit_def)

lemma payLoop_eq:
  "payLoop bs d nid btp tot batch =
     (tot + sum_list (map (shortfall bs) (presentEntries bs btp)),
      batch @ map (\<lambda>e. UpdateBillPaid (fst e) d nid) (presentEntries bs btp))"
proof (induction btp arbitrary: tot batch)
  case Nil
  show ?case by (simp add: presentEntries_def)
next
  case (Cons e rest)
  obtain k a where e: "e = (k, a)" by (cases e)
  show ?case
  proof (cases "find (\<lambda>b. b_id b = k) bs")
    case None
    then show ?thesis using Cons[of tot batch] by (simp add: e presentEntries_def)
  next
    case (Some b)
    then show ?thesis
      using Cons[of "if b_amount b - a > 0 then tot + (b_amount b - a) else tot"
                    "batch @ [UpdateBillPaid k d nid]"]
      by (simp add: e presentEntries_def shortfall_def Let_def max_def)
  qed
qed

lemma shortfall_nonneg: "0 \<le> sum_list (map (shortfall bs) es)"
  by (induction es) (auto simp: shortfall_def)

lemma addPaymentBatch_eq:
  "addPaymentBatch s nid pd btp c =
     SetPayment (pd\<lparr>p_id := nid\<rparr>)
     # map (\<lambda>e. UpdateBillPaid (fst e) (p_date pd) nid) (presentEntries (bills s) btp)
     @ (if sum_list (map (shortfall (bills s)) (presentEntries (bills s) btp)) > 0
        then [UpdateOpeningDue (p_customerId pd)
                (openingDue c + sum_list (map (shortfall (bills s)) (presentEntries (bills s) btp)))]
        else [])"
  by (simp add: addPaymentBatch_def payLoop_eq orZero_def)

lemma customers_commit_paid:
  "customers (commit s (map (\<lambda>e. UpdateBillPaid (fst e) d nid) es)) = customers s"
  by (induction es arbitrary: s) (simp_all add: commit_def)

lemma presentEntries_idem: "presentEntries bs (presentEntries bs btp) = presentEntries bs btp"
  by (simp add: presentEntries_def)


lemma bills_commit_paid:
  "bills (commit s (map (\<lambda>e. UpdateBillPaid (fst e) d nid) es)) =
     map (\<lambda>b. if b_id b \<in> fst ` set es
                then b\<lparr>status := PAID, paidDate := Some d, paymentId := Some nid\<rparr> else b) (bills s)"
proof (induction es arbitrary: s)
  case Nil
  show ?case by (simp add: commit_def)
next
  case (Cons e es)
  have "bills (commit (apply_write s (UpdateBillPaid (fst e) d nid))
                (map (\<lambda>e. UpdateBillPaid (fst e) d nid) es)) =
        map (\<lambda>b. if b_id b \<in> fst ` set es
                then b\<lparr>status := PAID, paidDate := Some d, paymentId := Some nid\<rparr> else b)
          (bills (apply_write s (UpdateBillPaid (fst e) d nid)))"
    by (rule Cons)
  then show ?case
    by (simp add: commit_Cons updateDoc_def) 
qed

lemma getCustomerById_update_last:
  assumes "customers (commit s ws) = customers s"
  shows "getCustomerById (commit s (ws @ [UpdateOpeningDue k v])) k =
         map_option (\<lambda>c. c\<lparr>openingDue := v\<rparr>) (getCustomerById s k)"
  using assms by (simp add: commit_append commit_Cons commit_Nil getCustomerById_def find_updateDoc)

lemma addPayment_result:
  assumes auth: "userId s \<noteq> None" and cust: "getCustomerById s (p_customerId pd) = Some c"
  shows "addPayment s nid pd btp = (ok, commit s (addPaymentBatch s nid pd btp c))"
  using assms by (auto simp: addPayment_def getCustomerById_def)

lemma addPayment_due:
  assumes auth: "userId s \<noteq> None" and cust: "getCustomerById s (p_customerId pd) = Some c"
  shows "dueOf (snd (addPayment s nid pd btp)) (p_customerId pd) =
         Some (openingDue c + sum_list (map (shortfall (bills s)) (presentEntries (bills s) btp)))"
proof -
  let ?es = "presentEntries (bills s) btp"
  let ?S = "sum_list (map (shortfall (bills s)) ?es)"
  let ?ws = "SetPayment (pd\<lparr>p_id := nid\<rparr>) # map (\<lambda>e. UpdateBillPaid (fst e) (p_date pd) nid) ?es"
  have cw: "customers (commit s ?ws) = customers s"
    by (simp add: commit_Cons customers_commit_paid)
  show ?thesis
  proof (cases "?S > 0")
    case True
    then have "addPaymentBatch s nid pd btp c =
        ?ws @ [UpdateOpeningDue (p_customerId pd) (openingDue c + ?S)]"
      by (simp add: addPaymentBatch_eq)
    then show ?thesis
      using cust getCustomerById_update_last[OF cw, of "p_customerId pd" "openingDue c + ?S"]
      by (simp add: addPayment_result[OF auth cust] dueOf_def)
  next
    case False
    with shortfall_nonneg[of "bills s" ?es] have z: "?S = 0" by simp
    then have "addPaymentBatch s nid pd btp c = ?ws"
      by (simp add: addPaymentBatch_eq)
    then show ?thesis
      using cust cw z
      by (simp add: addPayment_result[OF auth cust] dueOf_def getCustomerById_def)
  qed
qed

lemma presentEntries_all:
  assumes "\<forall>e\<in>set btp. find (\<lambda>b. b_id b = fst e) bs \<noteq> None"
  shows "presentEntries bs btp = btp"
  using assms by (simp add: presentEntries_def)

text \<open>
  Claim C1. For every \<open>addPayment\<close> call of an authenticated session on an existing
  customer, with every key of \<open>billsToPay\<close> the id of a bill of the current list, the call
  succeeds and the customer's opening due afterwards is its value before plus the sum,
  over the entries, of \<open>max 0 (bill.amount - amountApplied)\<close>; when every entry applies
  its bill's full amount, the opening due is unchanged.
\<close>

theorem addPayment_openingDue:
  assumes auth: "userId s \<noteq> None"
    and cust: "getCustomerById s (p_customerId pd) = Some c"
    and present: "\<forall>e\<in>set btp. find (\<lambda>b. b_id b = fst e) (bills s) \<noteq> None"
  shows "fst (addPayment s nid pd btp) = ok \<and>
         dueOf (snd (addPayment s nid pd btp)) (p_customerId pd) =
           Some (openingDue c + sum_list (map (shortfall (bills s)) btp)) \<and>
         ((\<forall>e\<in>set btp. snd e = b_amount (the (find (\<lambda>b. b_id b = fst e) (bills s)))) \<longrightarrow>
           dueOf (snd (addPayment s nid pd btp)) (p_customerId pd) = Some (openingDue c))"
proof -
  have d: "dueOf (snd (addPayment s nid pd btp)) (p_customerId pd) =
           Some (openingDue c + sum_list (map (shortfall (bills s)) btp))"
    using addPayment_due[OF auth cust, of nid btp] presentEntries_all[OF present] by simp
  have z: "sum_list (map (shortfall (bills s)) btp) = 0"
    if "\<forall>e\<in>set btp. snd e = b_amount (the (find (\<lambda>b. b_id b = fst e) (bills s)))"
  proof -
    from that have "\<forall>e\<in>set btp. shortfall (bills s) e = 0" by (simp add: shortfall_def)
    then show ?thesis by (induction btp) simp_all
  qed
  show ?thesis using d z by (simp add: addPayment_result[OF auth cust])
qed

text \<open>
  Claim C10. An entry of \<open>billsToPay\<close> whose key is not the id of a bill of the current list
  is skipped: the call gives the same result and state as the call without those
  entries, it still succeeds on an existing customer, the opening due grows by the
  remainders of the present entries only, and the batch holds no bill update for a key
  \<open>k\<close> that no bill carries.
\<close>

theorem addPayment_skips_unknown_bills:
  "addPayment s nid pd btp = addPayment s nid pd (presentEntries (bills s) btp) \<and>
   (userId s \<noteq> None \<and> getCustomerById s (p_customerId pd) = Some c \<longrightarrow>
      fst (addPayment s nid pd btp) = ok \<and>
      dueOf (snd (addPayment s nid pd btp)) (p_customerId pd) =
        Some (openingDue c + sum_list (map (shortfall (bills s)) (presentEntries (bills s) btp)))) \<and>
   (find (\<lambda>b. b_id b = k) (bills s) = None \<longrightarrow>
      UpdateBillPaid k d i \<notin> set (addPaymentBatch s nid pd btp c))"
proof (intro conjI impI)
  have "addPaymentBatch s nid pd btp c' = addPaymentBatch s nid pd (presentEntries (bills s) btp) c'"
    for c'
    by (simp add: addPaymentBatch_eq presentEntries_idem)
  then show "addPayment s nid pd btp = addPayment s nid pd (presentEntries (bills s) btp)"
    by (simp add: addPayment_def split: option.splits)
next
  assume a: "userId s \<noteq> None \<and> getCustomerById s (p_customerId pd) = Some c"
  then show "fst (addPayment s nid pd btp) = ok"
    by (simp add: addPayment_result)
  from a show "dueOf (snd (addPayment s nid pd btp)) (p_customerId pd) =
        Some (openingDue c + sum_list (map (shortfall (bills s)) (presentEntries (bills s) btp)))"
    by (simp add: addPayment_due)
next
  assume "find (\<lambda>b. b_id b = k) (bills s) = None"
  then show "UpdateBillPaid k d i \<notin> set (addPaymentBatch s nid pd btp c)"
    by (auto simp: addPaymentBatch_eq presentEntries_def)
qed


text \<open>
  The scenario of the specification: opening due 200, 300 applied to a bill of 500
  gives 400; the full 500 applied leaves 200.
\<close>

theorem addPayment_openingDue_witness:
  "userId exBilled \<noteq> None \<and>
   getCustomerById exBilled (p_customerId exPayment) = Some (exCustomer\<lparr>openingDue := 200\<rparr>) \<and>
   find (\<lambda>b. b_id b = ''c1-2024-1'') (bills exBilled) = Some exBill \<and>
   fst (addPayment exBilled ''pay1'' exPayment [(''c1-2024-1'', 300)]) = ok \<and>
   dueOf (snd (addPayment exBilled ''pay1'' exPayment [(''c1-2024-1'', 300)])) ''c1'' = Some 400 \<and>
   dueOf (snd (addPayment exBilled ''pay1'' exPayment [(''c1-2024-1'', 500)])) ''c1'' = Some 200"
proof -
  have h1: "userId exBilled \<noteq> None" by (simp add: exBilled_def exState_def)
  have h2: "getCustomerById exBilled (p_customerId exPayment) = Some (exCustomer\<lparr>openingDue := 200\<rparr>)"
    by (simp add: getCustomerById_def exBilled_def exPayment_def exCustomer_def)
  have h3: "find (\<lambda>b. b_id b = ''c1-2024-1'') (bills exBilled) = Some exBill"
    by (simp add: exBilled_def exBill_def)
  have p3: "\<forall>e\<in>set [(''c1-2024-1'', 300::int)]. find (\<lambda>b. b_id b = fst e) (bills exBilled) \<noteq> None"
    using h3 by simp
  have p5: "\<forall>e\<in>set [(''c1-2024-1'', 500::int)]. find (\<lambda>b. b_id b = fst e) (bills exBilled) \<noteq> None"
    using h3 by simp
  have v: "p_customerId exPayment = ''c1''" "b_amount exBill = 500"
    by (simp_all add: exPayment_def exBill_def)
  from addPayment_openingDue[OF h1 h2 p3, of "''pay1''"] addPayment_openingDue[OF h1 h2 p5, of "''pay1''"]
  show ?thesis using h1 h2 h3 by (simp add: v shortfall_def)
qed

text \<open>The same payment with one more entry, for a bill id the list does not hold.\<close>

theorem addPayment_skips_unknown_bills_witness:
  "userId exBilled \<noteq> None \<and>
   getCustomerById exBilled (p_customerId exPayment) = Some (exCustomer\<lparr>openingDue := 200\<rparr>) \<and>
   find (\<lambda>b. b_id b = ''c1-1999-9'') (bills exBilled) = None \<and>
   addPayment exBilled ''pay1'' exPayment [(''c1-2024-1'', 300), (''c1-1999-9'', 100)]
     = addPayment exBilled ''pay1'' exPayment [(''c1-2024-1'', 300)] \<and>
   fst (addPayment exBilled ''pay1'' exPayment [(''c1-2024-1'', 300), (''c1-1999-9'', 100)]) = ok \<and>
   dueOf (snd (addPayment exBilled ''pay1'' exPayment [(''c1-2024-1'', 300), (''c1-1999-9'', 100)])) ''c1''
     = Some 400 \<and>
   UpdateBillPaid ''c1-1999-9'' (p_date exPayment) ''pay1''
     \<notin> set (addPaymentBatch exBilled ''pay1'' exPayment [(''c1-2024-1'', 300), (''c1-1999-9'', 100)]
               (exCustomer\<lparr>openingDue := 200\<rparr>))"
proof -
  have h1: "userId exBilled \<noteq> None" by (simp add: exBilled_def exState_def)
  have h2: "getCustomerById exBilled (p_customerId exPayment) = Some (exCustomer\<lparr>openingDue := 200\<rparr>)"
    by (simp add: getCustomerById_def exBilled_def exPayment_def exCustomer_def)
  have h3: "find (\<lambda>b. b_id b = ''c1-1999-9'') (bills exBilled) = None"
    by (simp add: exBilled_def exBill_def)
  have pe: "presentEntries (bills exBilled) [(''c1-2024-1'', 300), (''c1-1999-9'', 100)]
      = [(''c1-2024-1'', 300)]"
    by (simp add: presentEntries_def exBilled_def exBill_def)
  have v: "p_customerId exPayment = ''c1''" "b_amount exBill = 500" "bills exBilled = [exBill]"
    "b_id exBill = ''c1-2024-1''"
    by (simp_all add: exPayment_def exBill_def exBilled_def)
  note T = addPayment_skips_unknown_bills[where s = exBilled and nid = "''pay1''" and pd = exPayment
      and btp = "[(''c1-2024-1'', 300), (''c1-1999-9'', 100)]"
      and c = "exCustomer\<lparr>openingDue := 200\<rparr>" and k = "''c1-1999-9''"
      and d = "p_date exPayment" and i = "''pay1''"]
  have t1: "addPayment exBilled ''pay1'' exPayment [(''c1-2024-1'', 300), (''c1-1999-9'', 100)]
        = addPayment exBilled ''pay1'' exPayment [(''c1-2024-1'', 300)]"
    using T unfolding pe by blast
  have t2: "fst (addPayment exBilled ''pay1'' exPayment [(''c1-2024-1'', 300), (''c1-1999-9'', 100)]) = ok"
    using T h1 h2 by blast
  have "dueOf (snd (addPayment exBilled ''pay1'' exPayment [(''c1-2024-1'', 300), (''c1-1999-9'', 100)]))
          (p_customerId exPayment)
        = Some (openingDue (exCustomer\<lparr>openingDue := 200\<rparr>)
                + sum_list (map (shortfall (bills exBilled)) [(''c1-2024-1'', 300)]))"
    using T h1 h2 unfolding pe by blast
  then have t3: "dueOf (snd (addPayment exBilled ''pay1'' exPayment
        [(''c1-2024-1'', 300), (''c1-1999-9'', 100)])) ''c1'' = Some 400"
    by (simp add: v shortfall_def)
  have t4: "UpdateBillPaid ''c1-1999-9'' (p_date exPayment) ''pay1''
       \<notin> set (addPaymentBatch exBilled ''pay1'' exPayment [(''c1-2024-1'', 300), (''c1-1999-9'', 100)]
               (exCustomer\<lparr>openingDue := 200\<rparr>))"
    using T h3 by blast
  show ?thesis using h1 h2 h3 t1 t2 t3 t4 by blast
qed

lemma bills_commit_unpaid:
  "bills (commit s (map (\<lambda>b. UpdateBillUnpaid (b_id b)) xs)) =
     map (\<lambda>b. if b_id b \<in> b_id ` set xs then markUnpaid b else b) (bills s)"
proof (induction xs arbitrary: s)
  case Nil
  show ?case by (simp add: commit_def)
next
  case (Cons x xs)
  have "bills (commit (apply_write s (UpdateBillUnpaid (b_id x)))
                (map (\<lambda>b. UpdateBillUnpaid (b_id b)) xs)) =
        map (\<lambda>b. if b_id b \<in> b_id ` set xs then markUnpaid b else b)
          (bills (apply_write s (UpdateBillUnpaid (b_id x))))"
    by (rule Cons)
  then show ?case
    by (simp add: commit_Cons updateDoc_def markUnpaid_def)
qed

lemma others_commit_unpaid:
  "customers (commit s (map (\<lambda>b. UpdateBillUnpaid (b_id b)) xs)) = customers s \<and>
   payments (commit s (map (\<lambda>b. UpdateBillUnpaid (b_id b)) xs)) = payments s"
  by (induction xs arbitrary: s) (simp_all add: commit_def)

lemma deletePayment_result:
  assumes "userId s \<noteq> None"
  shows "deletePayment s pid =
     (ok, commit s (map (\<lambda>b. UpdateBillUnpaid (b_id b))
                      (filter (\<lambda>b. paymentId b = Some pid) (bills s)) @ [DeletePayment pid]))"
  using assms by (auto simp: deletePayment_def)

lemma deletePayment_bills:
  assumes "userId s \<noteq> None"
  shows "bills (snd (deletePayment s pid)) =
     map (\<lambda>b. if b_id b \<in> b_id ` {x \<in> set (bills s). paymentId x = Some pid}
                then markUnpaid b else b) (bills s)"
  by (simp add: deletePayment_result[OF assms] commit_append commit_Cons commit_Nil
      bills_commit_unpaid)

lemma distinct_key_eq:
  assumes "distinct (map key xs)" and "x \<in> set xs" and "y \<in> set xs" and "key x = key y"
  shows "x = y"
  using assms by (meson distinct_map inj_onD)

text \<open>
  Claim C6. In an authenticated session, over a bill collection with one document per
  id, \<open>deletePayment\<close> succeeds, turns every bill whose \<open>paymentId\<close> is the given id back
  to Unpaid with \<open>paidDate\<close> and \<open>paymentId\<close> removed and leaves every other bill as it
  was, removes the payment record with that id, and leaves the customers, so every
  customer's opening due, unchanged.
\<close>

theorem deletePayment_reverts_bills:
  assumes auth: "userId s \<noteq> None"
    and ids: "distinct (map b_id (bills s))"
  shows "fst (deletePayment s pid) = ok \<and>
         bills (snd (deletePayment s pid)) =
           map (\<lambda>b. if paymentId b = Some pid
                      then b\<lparr>status := UNPAID, paidDate := None, paymentId := None\<rparr> else b) (bills s) \<and>
         payments (snd (deletePayment s pid)) = filter (\<lambda>p. p_id p \<noteq> pid) (payments s) \<and>
         customers (snd (deletePayment s pid)) = customers s \<and>
         dueOf (snd (deletePayment s pid)) cid = dueOf s cid"
proof -
  have b: "bills (snd (deletePayment s pid)) =
           map (\<lambda>b. if paymentId b = Some pid
                      then b\<lparr>status := UNPAID, paidDate := None, paymentId := None\<rparr> else b) (bills s)"
    unfolding deletePayment_bills[OF auth]
  proof (rule map_cong[OF refl])
    fix b assume m: "b \<in> set (bills s)"
    have "b_id b \<in> b_id ` {x \<in> set (bills s). paymentId x = Some pid} \<longleftrightarrow> paymentId b = Some pid"
    proof
      assume "b_id b \<in> b_id ` {x \<in> set (bills s). paymentId x = Some pid}"
      then obtain x where x: "x \<in> set (bills s)" "paymentId x = Some pid" "b_id b = b_id x" by auto
      from distinct_key_eq[OF ids m x(1) x(3)] x(2) show "paymentId b = Some pid" by simp
    next
      assume "paymentId b = Some pid"
      with m show "b_id b \<in> b_id ` {x \<in> set (bills s). paymentId x = Some pid}" by auto
    qed
    then show "(if b_id b \<in> b_id ` {x \<in> set (bills s). paymentId x = Some pid}
                then markUnpaid b else b) =
               (if paymentId b = Some pid
                then b\<lparr>status := UNPAID, paidDate := None, paymentId := None\<rparr> else b)"
      by (simp add: markUnpaid_def)
  qed
  have p: "payments (snd (deletePayment s pid)) = filter (\<lambda>p. p_id p \<noteq> pid) (payments s)"
    by (simp add: deletePayment_result[OF auth] commit_append commit_Cons commit_Nil
        others_commit_unpaid deleteDoc_def)
  have c: "customers (snd (deletePayment s pid)) = customers s"
    by (simp add: deletePayment_result[OF auth] commit_append commit_Cons commit_Nil
        others_commit_unpaid)
  show ?thesis using b p c
    by (simp add: deletePayment_result[OF auth] dueOf_def getCustomerById_def)
qed


lemma exPaid_eval:
  "userId exPaid = Some ''u1''"
  "bills exPaid = [exBill\<lparr>status := PAID, paidDate := Some ''2024-03-20T00:00:00.000Z'',
                     paymentId := Some ''pay1''\<rparr>]"
  "customers exPaid = [exCustomer\<lparr>openingDue := 400\<rparr>]"
  "payments exPaid = [exPayment\<lparr>p_id := ''pay1''\<rparr>]"
  by (simp_all add: exPaid_def addPayment_def addPaymentBatch_def exBilled_def exState_def
      exCustomer_def exPayment_def exBill_def commit_def setDoc_def updateDoc_def orZero_def)

text \<open>
  Undoing the payment that raised the opening due from 200 to 400 by its shortfall:
  the bill is Unpaid again, the payment is gone, the opening due stays 400.
\<close>

theorem deletePayment_reverts_bills_witness:
  "userId exPaid \<noteq> None \<and> distinct (map b_id (bills exPaid)) \<and>
   dueOf exBilled ''c1'' = Some 200 \<and> dueOf exPaid ''c1'' = Some 400 \<and>
   map billState (bills exPaid)
     = [(''c1-2024-1'', PAID, Some ''2024-03-20T00:00:00.000Z'', Some ''pay1'')] \<and>
   fst (deletePayment exPaid ''pay1'') = ok \<and>
   map billState (bills (snd (deletePayment exPaid ''pay1''))) = [(''c1-2024-1'', UNPAID, None, None)] \<and>
   payments (snd (deletePayment exPaid ''pay1'')) = [] \<and>
   dueOf (snd (deletePayment exPaid ''pay1'')) ''c1'' = Some 400"
proof -
  have h1: "userId exPaid \<noteq> None" by (simp add: exPaid_eval)
  have h2: "distinct (map b_id (bills exPaid))" by (simp add: exPaid_eval)
  have d0: "dueOf exBilled ''c1'' = Some 200"
    by (simp add: dueOf_def getCustomerById_def exBilled_def exCustomer_def)
  have d1: "dueOf exPaid ''c1'' = Some 400"
    by (simp add: dueOf_def getCustomerById_def exPaid_eval exCustomer_def)
  have b1: "map billState (bills exPaid)
     = [(''c1-2024-1'', PAID, Some ''2024-03-20T00:00:00.000Z'', Some ''pay1'')]"
    by (simp add: exPaid_eval billState_def exBill_def)
  note T = deletePayment_reverts_bills[OF h1 h2, of "''pay1''" "''c1''"]
  have t1: "fst (deletePayment exPaid ''pay1'') = ok" using T by blast
  have "bills (snd (deletePayment exPaid ''pay1'')) =
           map (\<lambda>b. if paymentId b = Some ''pay1''
                      then b\<lparr>status := UNPAID, paidDate := None, paymentId := None\<rparr> else b) (bills exPaid)"
    using T by blast
  then have t2: "map billState (bills (snd (deletePayment exPaid ''pay1'')))
      = [(''c1-2024-1'', UNPAID, None, None)]"
    by (simp add: exPaid_eval billState_def exBill_def)
  have "payments (snd (deletePayment exPaid ''pay1'')) = filter (\<lambda>p. p_id p \<noteq> ''pay1'') (payments exPaid)"
    using T by blast
  then have t3: "payments (snd (deletePayment exPaid ''pay1'')) = []"
    by (simp add: exPaid_eval)
  have t4: "dueOf (snd (deletePayment exPaid ''pay1'')) ''c1'' = Some 400"
    using T d1 by simp
  show ?thesis using h1 h2 d0 d1 b1 t1 t2 t3 t4 by blast
qed


lemma find_map_None:
  assumes "\<And>x. key (f x) = key x"
  shows "(find (\<lambda>b. key b = k) (map f bs) = None) = (find (\<lambda>b. key b = k) bs = None)"
  using assms by (induction bs) auto

lemma presentEntries_map:
  assumes "\<And>x. b_id (f x) = b_id x"
  shows "presentEntries (map f bs) btp = presentEntries bs btp"
  using find_map_None[of b_id f, OF assms] by (simp add: presentEntries_def)

lemma addPayment_bills:
  assumes auth: "userId s \<noteq> None" and cust: "getCustomerById s (p_customerId pd) = Some c"
  shows "bills (snd (addPayment s nid pd btp)) =
     map (\<lambda>b. if b_id b \<in> fst ` set (presentEntries (bills s) btp)
                then markPaid (p_date pd) nid b else b) (bills s)"
proof -
  let ?es = "presentEntries (bills s) btp"
  let ?s0 = "apply_write s (SetPayment (pd\<lparr>p_id := nid\<rparr>))"
  have "bills (commit ?s0 (map (\<lambda>e. UpdateBillPaid (fst e) (p_date pd) nid) ?es)) =
     map (\<lambda>b. if b_id b \<in> fst ` set ?es then markPaid (p_date pd) nid b else b) (bills s)"
    by (simp add: bills_commit_paid markPaid_def)
  then show ?thesis
    by (simp add: addPayment_result[OF auth cust] addPaymentBatch_eq commit_Cons commit_append
        commit_Nil)
qed

lemma addPayment_userId: "userId (snd (addPayment s nid pd btp)) = userId s"
  by (simp add: addPayment_def userId_commit split: option.splits)

lemma deletePayment_userId: "userId (snd (deletePayment s pid)) = userId s"
  by (simp add: deletePayment_def userId_commit Let_def)

lemma deletePayment_customers: "customers (snd (deletePayment s pid)) = customers s"
  by (simp add: deletePayment_def Let_def commit_append commit_Cons commit_Nil others_commit_unpaid)

lemma addPayment_keeps_customer:
  assumes auth: "userId s \<noteq> None" and cust: "getCustomerById s (p_customerId pd) = Some c"
  shows "\<exists>c'. getCustomerById (snd (addPayment s nid pd btp)) (p_customerId pd) = Some c'"
  using addPayment_due[OF auth cust, of nid btp] by (auto simp: dueOf_def)

text \<open>
  Claim C5, as amended. Let a payment be applied under the id \<open>id1\<close>, fresh in that no
  bill refers to it yet, then undone, then applied again with the same entries and the
  same date; the second payment gets the id \<open>id2\<close> from the store. Every bill then has
  the status and the paid date it had before the undo, and each bill that referred to
  \<open>id1\<close> refers to \<open>id2\<close>: the payment reference is that of the new payment record, not
  the old one.
\<close>

theorem undo_then_reapply:
  assumes auth: "userId s \<noteq> None"
    and cust: "getCustomerById s (p_customerId pd) = Some c"
    and fresh: "\<forall>b\<in>set (bills s). paymentId b \<noteq> Some id1"
  shows "let s1 = snd (addPayment s id1 pd btp);
             s2 = snd (deletePayment s1 id1);
             r3 = addPayment s2 id2 pd btp
         in fst r3 = ok \<and>
            bills (snd r3) =
              map (\<lambda>b. if paymentId b = Some id1 then b\<lparr>paymentId := Some id2\<rparr> else b) (bills s1) \<and>
            map (\<lambda>b. (b_id b, status b, paidDate b)) (bills (snd r3)) =
              map (\<lambda>b. (b_id b, status b, paidDate b)) (bills s1) \<and>
            (\<forall>b\<in>set (bills (snd r3)). b_id b \<in> fst ` set (presentEntries (bills s) btp) \<longrightarrow>
                 status b = PAID \<and> paidDate b = Some (p_date pd) \<and> paymentId b = Some id2)"
proof -
  define K where "K = fst ` set (presentEntries (bills s) btp)"
  define d where "d = p_date pd"
  define s1 where "s1 = snd (addPayment s id1 pd btp)"
  define s2 where "s2 = snd (deletePayment s1 id1)"
  have b1: "bills s1 = map (\<lambda>b. if b_id b \<in> K then markPaid d id1 b else b) (bills s)"
    unfolding s1_def K_def d_def by (rule addPayment_bills[OF auth cust])
  have a1: "userId s1 \<noteq> None" using auth by (simp add: s1_def addPayment_userId)
  obtain c1 where c1: "getCustomerById s1 (p_customerId pd) = Some c1"
    using addPayment_keeps_customer[OF auth cust, of id1 btp] by (auto simp: s1_def)
  have ref1: "b_id b \<in> b_id ` {x \<in> set (bills s1). paymentId x = Some id1} \<longleftrightarrow> b_id b \<in> K"
    if "b \<in> set (bills s)" for b
  proof
    assume "b_id b \<in> b_id ` {x \<in> set (bills s1). paymentId x = Some id1}"
    then obtain x where x: "x \<in> set (bills s1)" "paymentId x = Some id1" "b_id b = b_id x" by auto
    from x(1) obtain y where y: "y \<in> set (bills s)"
      "x = (if b_id y \<in> K then markPaid d id1 y else y)" unfolding b1 by auto
    show "b_id b \<in> K"
    proof (cases "b_id y \<in> K")
      case True
      with y x(3) show ?thesis by (simp add: markPaid_def)
    next
      case False
      with y x(2) fresh show ?thesis by auto
    qed
  next
    assume k: "b_id b \<in> K"
    have "markPaid d id1 b \<in> set (bills s1)" unfolding b1 using that k by force
    moreover have "paymentId (markPaid d id1 b) = Some id1" "b_id (markPaid d id1 b) = b_id b"
      by (simp_all add: markPaid_def)
    ultimately have "markPaid d id1 b \<in> {x \<in> set (bills s1). paymentId x = Some id1}"
      by simp
    then have "b_id (markPaid d id1 b) \<in> b_id ` {x \<in> set (bills s1). paymentId x = Some id1}"
      by (rule imageI)
    then show "b_id b \<in> b_id ` {x \<in> set (bills s1). paymentId x = Some id1}"
      by (simp add: markPaid_def)
  qed
  have b2: "bills s2 = map (\<lambda>b. if b_id b \<in> K then markUnpaid (markPaid d id1 b) else b) (bills s)"
    unfolding s2_def deletePayment_bills[OF a1] unfolding b1 map_map
  proof (rule map_cong[OF refl])
    fix b assume m: "b \<in> set (bills s)"
    have i: "b_id (if b_id b \<in> K then markPaid d id1 b else b) = b_id b" by (simp add: markPaid_def)
    show "((\<lambda>b. if b_id b \<in> b_id ` {x \<in> set (map (\<lambda>b. if b_id b \<in> K then markPaid d id1 b else b) (bills s)).
                        paymentId x = Some id1} then markUnpaid b else b) \<circ>
           (\<lambda>b. if b_id b \<in> K then markPaid d id1 b else b)) b =
          (if b_id b \<in> K then markUnpaid (markPaid d id1 b) else b)"
      using ref1[OF m] unfolding b1 by (simp add: i)
  qed
  have a2: "userId s2 \<noteq> None" using a1 by (simp add: s2_def deletePayment_userId)
  have c2: "getCustomerById s2 (p_customerId pd) = Some c1"
    using c1 by (simp add: s2_def getCustomerById_def deletePayment_customers)
  have pe: "presentEntries (bills s2) btp = presentEntries (bills s) btp"
    unfolding b2 by (rule presentEntries_map) (simp add: markUnpaid_def markPaid_def)
  have b3: "bills (snd (addPayment s2 id2 pd btp)) =
      map (\<lambda>b. if b_id b \<in> K then markPaid d id2 (markUnpaid (markPaid d id1 b)) else b) (bills s)"
    unfolding addPayment_bills[OF a2 c2] pe unfolding b2 map_map K_def[symmetric] d_def[symmetric]
    by (rule map_cong[OF refl]) (simp add: markUnpaid_def markPaid_def)
  have r3: "fst (addPayment s2 id2 pd btp) = ok"
    by (simp add: addPayment_result[OF a2 c2])
  have e1: "bills (snd (addPayment s2 id2 pd btp)) =
      map (\<lambda>b. if paymentId b = Some id1 then b\<lparr>paymentId := Some id2\<rparr> else b) (bills s1)"
    unfolding b3 b1 map_map
  proof (rule map_cong[OF refl])
    fix b assume m: "b \<in> set (bills s)"
    with fresh have "paymentId b \<noteq> Some id1" by blast
    then show "(if b_id b \<in> K then markPaid d id2 (markUnpaid (markPaid d id1 b)) else b) =
       ((\<lambda>b. if paymentId b = Some id1 then b\<lparr>paymentId := Some id2\<rparr> else b) \<circ>
        (\<lambda>b. if b_id b \<in> K then markPaid d id1 b else b)) b"
      by (simp add: markUnpaid_def markPaid_def)
  qed
  have e2: "map (\<lambda>b. (b_id b, status b, paidDate b)) (bills (snd (addPayment s2 id2 pd btp))) =
            map (\<lambda>b. (b_id b, status b, paidDate b)) (bills s1)"
    unfolding e1 map_map by (rule map_cong[OF refl]) simp
  have e3: "\<forall>b\<in>set (bills (snd (addPayment s2 id2 pd btp))). b_id b \<in> K \<longrightarrow>
                 status b = PAID \<and> paidDate b = Some d \<and> paymentId b = Some id2"
    unfolding b3 by (auto simp: markPaid_def markUnpaid_def)
  show ?thesis
    using r3 e1 e2 e3 unfolding Let_def s1_def[symmetric] s2_def[symmetric] K_def d_def by blast
qed


lemma exUndone_eval:
  "userId (snd (deletePayment exPaid ''pay1'')) = Some ''u1''"
  "bills (snd (deletePayment exPaid ''pay1'')) = [exBill]"
  "customers (snd (deletePayment exPaid ''pay1'')) = [exCustomer\<lparr>openingDue := 400\<rparr>]"
  by (simp_all add: deletePayment_def exPaid_eval commit_def updateDoc_def exBill_def)

text \<open>
  Claim C5 as stated fails: the bill paid by \<open>pay1\<close>, undone and paid again, carries
  the reference \<open>pay2\<close> of the new payment, so its state is not the one before the undo.
\<close>

theorem undo_then_reapply_new_id:
  "map billState (bills exPaid)
     = [(''c1-2024-1'', PAID, Some ''2024-03-20T00:00:00.000Z'', Some ''pay1'')] \<and>
   map billState (bills (snd (deletePayment exPaid ''pay1''))) = [(''c1-2024-1'', UNPAID, None, None)] \<and>
   map billState (bills (snd (addPayment (snd (deletePayment exPaid ''pay1'')) ''pay2'' exPayment
                                 [(''c1-2024-1'', 300)])))
     = [(''c1-2024-1'', PAID, Some ''2024-03-20T00:00:00.000Z'', Some ''pay2'')] \<and>
   map billState (bills (snd (addPayment (snd (deletePayment exPaid ''pay1'')) ''pay2'' exPayment
                                 [(''c1-2024-1'', 300)])))
     \<noteq> map billState (bills exPaid)"
proof -
  have a: "map billState (bills exPaid)
     = [(''c1-2024-1'', PAID, Some ''2024-03-20T00:00:00.000Z'', Some ''pay1'')]"
    by (simp add: exPaid_eval billState_def exBill_def)
  have b: "map billState (bills (snd (deletePayment exPaid ''pay1''))) = [(''c1-2024-1'', UNPAID, None, None)]"
    by (simp add: exUndone_eval billState_def exBill_def)
  have c: "map billState (bills (snd (addPayment (snd (deletePayment exPaid ''pay1'')) ''pay2'' exPayment
                                 [(''c1-2024-1'', 300)])))
     = [(''c1-2024-1'', PAID, Some ''2024-03-20T00:00:00.000Z'', Some ''pay2'')]"
    by (simp add: addPayment_def addPaymentBatch_def exUndone_eval exCustomer_def exPayment_def
        exBill_def commit_def setDoc_def updateDoc_def orZero_def billState_def)
  show ?thesis unfolding a b c by simp
qed

text \<open>The amended claim on the example: status and paid date agree, the reference is \<open>pay2\<close>.\<close>

theorem undo_then_reapply_witness:
  "userId exBilled \<noteq> None \<and>
   getCustomerById exBilled (p_customerId exPayment) = Some (exCustomer\<lparr>openingDue := 200\<rparr>) \<and>
   map paymentId (bills exBilled) = [None] \<and>
   presentEntries (bills exBilled) [(''c1-2024-1'', 300)] = [(''c1-2024-1'', 300)] \<and>
   fst (addPayment (snd (deletePayment exPaid ''pay1'')) ''pay2'' exPayment [(''c1-2024-1'', 300)]) = ok \<and>
   map (\<lambda>b. (b_id b, status b, paidDate b))
     (bills (snd (addPayment (snd (deletePayment exPaid ''pay1'')) ''pay2'' exPayment [(''c1-2024-1'', 300)])))
     = map (\<lambda>b. (b_id b, status b, paidDate b)) (bills exPaid) \<and>
   map paymentId
     (bills (snd (addPayment (snd (deletePayment exPaid ''pay1'')) ''pay2'' exPayment [(''c1-2024-1'', 300)])))
     = [Some ''pay2'']"
proof -
  have h1: "userId exBilled \<noteq> None" by (simp add: exBilled_def exState_def)
  have h2: "getCustomerById exBilled (p_customerId exPayment) = Some (exCustomer\<lparr>openingDue := 200\<rparr>)"
    by (simp add: getCustomerById_def exBilled_def exPayment_def exCustomer_def)
  have h3: "map paymentId (bills exBilled) = [None]" by (simp add: exBilled_def exBill_def)
  then have h3': "\<forall>b\<in>set (bills exBilled). paymentId b \<noteq> Some ''pay1''"
    by (simp add: exBilled_def)
  have pe: "presentEntries (bills exBilled) [(''c1-2024-1'', 300)] = [(''c1-2024-1'', 300)]"
    by (simp add: presentEntries_def exBilled_def exBill_def)
  note T = undo_then_reapply[OF h1 h2 h3', where ?id2.0 = "''pay2''" and btp = "[(''c1-2024-1'', 300)]",
      unfolded Let_def exPaid_def[symmetric]]
  have t1: "fst (addPayment (snd (deletePayment exPaid ''pay1'')) ''pay2'' exPayment [(''c1-2024-1'', 300)]) = ok"
    using T by blast
  have t2: "map (\<lambda>b. (b_id b, status b, paidDate b))
     (bills (snd (addPayment (snd (deletePayment exPaid ''pay1'')) ''pay2'' exPayment [(''c1-2024-1'', 300)])))
     = map (\<lambda>b. (b_id b, status b, paidDate b)) (bills exPaid)"
    using T by blast
  have "bills (snd (addPayment (snd (deletePayment exPaid ''pay1'')) ''pay2'' exPayment [(''c1-2024-1'', 300)]))
      = map (\<lambda>b. if paymentId b = Some ''pay1'' then b\<lparr>paymentId := Some ''pay2''\<rparr> else b) (bills exPaid)"
    using T by blast
  then have t3: "map paymentId
     (bills (snd (addPayment (snd (deletePayment exPaid ''pay1'')) ''pay2'' exPayment [(''c1-2024-1'', 300)])))
     = [Some ''pay2'']"
    by (simp add: exPaid_eval)
  show ?thesis using h1 h2 h3 pe t1 t2 t3 by blast
qed

section \<open>Bill generator: properties\<close>

lemma cond_index:
  assumes "m < 12" and "cm < 12"
  shows "(y < cy \<or> (y = cy \<and> m \<le> cm)) \<longleftrightarrow> 12 * y + int m \<le> 12 * cy + int cm"
  using assms by auto

lemma setMonth_index:
  "12 * fst (setMonth (y, m) (m + 1)) + int (snd (setMonth (y, m) (m + 1))) = 12 * y + int m + 1"
  "snd (setMonth (y, m) (m + 1)) < 12"
proof -
  have "12 * (int (m + 1) div 12) + int (m + 1) mod 12 = int (m + 1)"
    by (rule mult_div_mod_eq)
  then have "12 * int ((m + 1) div 12) + int ((m + 1) mod 12) = int m + 1"
    by (simp add: zdiv_int zmod_int)
  then show "12 * fst (setMonth (y, m) (m + 1)) + int (snd (setMonth (y, m) (m + 1))) = 12 * y + int m + 1"
    by (simp add: setMonth_def algebra_simps)
  show "snd (setMonth (y, m) (m + 1)) < 12" by (simp add: setMonth_def)
qed

lemma index_div_mod:
  assumes "m < 12"
  shows "(12 * y + int m) div 12 = y" "nat ((12 * y + int m) mod 12) = m"
  using assms by auto

lemma day0_last_day:
  assumes "99 < y" and "1 \<le> m" and "m \<le> 12"
  shows "new_Date_day0 y m = \<lparr>fullYear = y, month = m - 1, date = daysInMonth y (m - 1), msOfDay = 0\<rparr>"
proof (cases "m = 12")
  case True
  then show ?thesis using assms by (simp add: new_Date_day0_def makeFullYear_def daysInMonth_def)
next
  case False
  with assms have "m mod 12 = m" "m div 12 = 0" "m \<noteq> 0" by auto
  then show ?thesis using assms by (simp add: new_Date_day0_def makeFullYear_def Let_def)
qed


lemma billLoop_unfold:
  "billLoop c bs cy cm (y, m) =
     (if y < cy \<or> (y = cy \<and> m \<le> cm)
      then (if \<not> list_ex (\<lambda>b. b_id b = billKey (c_id c) y (m + 1)) bs
            then [SetBill \<lparr>b_id = billKey (c_id c) y (m + 1), b_customerId = c_id c,
                     b_amount = monthlyBill c, b_month = m + 1, b_year = y,
                     status = UNPAID, dueDate = new_Date_day0 y (m + 1),
                     paidDate = None, paymentId = None, paidAmount = None\<rparr>]
            else [])
           @ billLoop c bs cy cm (setMonth (y, m) (m + 1))
      else [])"
  by (subst billLoop.simps) (simp add: Let_def billKey_def)

lemma monthsBetween_step:
  assumes "m < 12" and "12 * y + int m \<le> 12 * cy + int cm"
  shows "monthsBetween (y, m) (cy, cm) = (y, m + 1) # monthsBetween (setMonth (y, m) (m + 1)) (cy, cm)"
proof -
  have u: "[12 * y + int m .. 12 * cy + int cm] =
      (12 * y + int m) # [12 * y + int m + 1 .. 12 * cy + int cm]"
    using assms(2) by (simp add: upto_rec1)
  show ?thesis
    unfolding monthsBetween_def fst_conv snd_conv u setMonth_index(1)
    using index_div_mod[OF assms(1), of y] by simp
qed

lemma monthsBetween_empty:
  assumes "\<not> 12 * y + int m \<le> 12 * cy + int cm"
  shows "monthsBetween (y, m) (cy, cm) = []"
  using assms by (simp add: monthsBetween_def)

lemma billLoop_spec:
  assumes "snd ld < 12" and "cm < 12" and "99 < fst ld"
  shows "billLoop c bs cy cm ld =
     map (\<lambda>ym. SetBill (specBill c ym))
       (filter (\<lambda>ym. \<not> list_ex (\<lambda>b. b_id b = billKey (c_id c) (fst ym) (snd ym)) bs)
          (monthsBetween ld (cy, cm)))"
  using assms
proof (induction c bs cy cm ld rule: billLoop.induct)
  case (1 c bs cy cm ld)
  obtain y m where ld: "ld = (y, m)" by (cases ld)
  from "1.prems" ld have m: "m < 12" and cm: "cm < 12" and y: "99 < y" by simp_all
  show ?case
  proof (cases "y < cy \<or> (y = cy \<and> m \<le> cm)")
    case False
    then have "\<not> 12 * y + int m \<le> 12 * cy + int cm" using cond_index[OF m cm] by simp
    then have "monthsBetween (y, m) (cy, cm) = []" by (rule monthsBetween_empty)
    moreover have "billLoop c bs cy cm (y, m) = []"
      by (subst billLoop_unfold) (simp only: False if_False)
    ultimately show ?thesis unfolding ld by simp
  next
    case True
    then have le: "12 * y + int m \<le> 12 * cy + int cm" using cond_index[OF m cm] by simp
    have next_ok: "snd (setMonth (y, m) (m + 1)) < 12" "99 < fst (setMonth (y, m) (m + 1))"
      using y by (simp_all add: setMonth_def)
    have IH: "billLoop c bs cy cm (setMonth (y, m) (m + 1)) =
       map (\<lambda>ym. SetBill (specBill c ym))
         (filter (\<lambda>ym. \<not> list_ex (\<lambda>b. b_id b = billKey (c_id c) (fst ym) (snd ym)) bs)
            (monthsBetween (setMonth (y, m) (m + 1)) (cy, cm)))"
    proof -
      have cnd: "fst ld < cy \<or> fst ld = cy \<and> snd ld \<le> cm" using True ld by simp
      note ih = "1.IH"[OF cnd refl refl refl refl]
      show ?thesis using ih next_ok cm unfolding ld by simp
    qed
    have d: "new_Date_day0 y (Suc m) =
        \<lparr>fullYear = y, month = m, date = daysInMonth y m, msOfDay = 0\<rparr>"
      using day0_last_day[of y "Suc m"] y m by simp
    have "billLoop c bs cy cm (y, m) =
        (if \<not> list_ex (\<lambda>b. b_id b = billKey (c_id c) y (m + 1)) bs
            then [SetBill \<lparr>b_id = billKey (c_id c) y (m + 1), b_customerId = c_id c,
                     b_amount = monthlyBill c, b_month = m + 1, b_year = y,
                     status = UNPAID, dueDate = new_Date_day0 y (m + 1),
                     paidDate = None, paymentId = None, paidAmount = None\<rparr>]
            else [])
           @ billLoop c bs cy cm (setMonth (y, m) (m + 1))"
      by (subst billLoop_unfold) (simp only: True if_True)
    then show ?thesis
      unfolding ld IH by (simp add: monthsBetween_step[OF m le] d specBill_def)
  qed
qed


lemma monthsBetween_distinct: "distinct (monthsBetween start current)"
proof -
  have "inj_on (\<lambda>k::int. (k div 12, nat (k mod 12) + 1)) A" for A
  proof (rule inj_onI)
    fix a b :: int
    assume "(a div 12, nat (a mod 12) + 1) = (b div 12, nat (b mod 12) + 1)"
    then have d: "a div 12 = b div 12" and "nat (a mod 12) = nat (b mod 12)" by simp_all
    then have m: "a mod 12 = b mod 12" by simp
    have "a = 12 * (a div 12) + a mod 12" by simp
    also have "\<dots> = 12 * (b div 12) + b mod 12" using d m by simp
    also have "\<dots> = b" by simp
    finally show "a = b" .
  qed
  then show ?thesis by (simp add: monthsBetween_def distinct_map)
qed

lemma day1_start:
  assumes "99 < y" and "m < 12"
  shows "new_Date_day1 y m = (y, m)"
  using assms by (simp add: new_Date_day1_def makeFullYear_def)

lemma dateOnly_range:
  assumes "dateOnly s = Some (y, m, d)"
  shows "m < 12" and "1 \<le> d"
  using assms by (auto simp: dateOnly_def split: if_splits option.splits)

lemma new_Date_text_east:
  assumes "dateOnly s = Some (y, m, d)" and "d \<le> daysInMonth y m" and "0 \<le> zone"
  shows "new_Date_text zone s =
     Some \<lparr>fullYear = y, month = m, date = d, msOfDay = nat (zone * 60000)\<rparr>"
  using assms by (simp add: new_Date_text_def carryDay_def)

text \<open>
  Where the generator meets the specification: for a start date from the year 100 on,
  read in a zone at or east of UTC, an Active customer whose start date is not after the
  current date gets exactly the bills of \<open>specBillsFor\<close>, one for each calendar month from
  the month of the start date through the current month inclusive for which no bill with
  the key customerId-year-month exists. A customer who is Paused or Inactive, or whose
  start date is after the current date, gets no bill. With a signed-in user and the bills
  loaded, the batch is the customers' bills in the order of the customers.
\<close>

lemma generator_boundary:
  "(connectionStatus c = ACTIVE \<and> dateOnly (startDate c) = Some (y, m, d) \<and>
    d \<le> daysInMonth y m \<and> 0 \<le> zone \<and> 99 < y \<and> month now < 12 \<and>
    \<not> dateGreater \<lparr>fullYear = y, month = m, date = d, msOfDay = nat (zone * 60000)\<rparr> now
      \<longrightarrow> billsForCustomer zone now bs c = specBillsFor now bs c) \<and>
   (connectionStatus c = PAUSED \<or> connectionStatus c = INACTIVE
      \<longrightarrow> billsForCustomer zone now bs c = []) \<and>
   (new_Date_text zone (startDate c) = Some start \<and> dateGreater start now
      \<longrightarrow> billsForCustomer zone now bs c = []) \<and>
   (userId s \<noteq> None \<and> initialBillsLoaded s
      \<longrightarrow> generateBills zone now s = concat (map (billsForCustomer zone now (bills s)) (customers s))) \<and>
   distinct (monthsBetween (y, m) (fullYear now, month now))"
proof (intro conjI impI)
  assume a: "connectionStatus c = ACTIVE \<and> dateOnly (startDate c) = Some (y, m, d) \<and>
    d \<le> daysInMonth y m \<and> 0 \<le> zone \<and> 99 < y \<and> month now < 12 \<and>
    \<not> dateGreater \<lparr>fullYear = y, month = m, date = d, msOfDay = nat (zone * 60000)\<rparr> now"
  then have m12: "m < 12" using dateOnly_range(1)[of "startDate c" y m d] by simp
  have p: "new_Date_text zone (startDate c) =
      Some \<lparr>fullYear = y, month = m, date = d, msOfDay = nat (zone * 60000)\<rparr>"
    using a by (intro new_Date_text_east) simp_all
  have st: "new_Date_day1 y m = (y, m)" using a m12 by (simp add: day1_start)
  have "billLoop c bs (fullYear now) (month now) (y, m) =
      map (\<lambda>ym. SetBill (specBill c ym))
        (filter (\<lambda>ym. \<not> list_ex (\<lambda>b. b_id b = billKey (c_id c) (fst ym) (snd ym)) bs)
           (monthsBetween (y, m) (fullYear now, month now)))"
    using a m12 by (intro billLoop_spec) simp_all
  with a p st show "billsForCustomer zone now bs c = specBillsFor now bs c"
    by (simp add: billsForCustomer_def specBillsFor_def)
next
  assume "connectionStatus c = PAUSED \<or> connectionStatus c = INACTIVE"
  then show "billsForCustomer zone now bs c = []"
    by (auto simp: billsForCustomer_def)
next
  assume "new_Date_text zone (startDate c) = Some start \<and> dateGreater start now"
  then show "billsForCustomer zone now bs c = []"
    by (simp add: billsForCustomer_def)
next
  assume "userId s \<noteq> None \<and> initialBillsLoaded s"
  then show "generateBills zone now s = concat (map (billsForCustomer zone now (bills s)) (customers s))"
    by (auto simp: generateBills_def)
next
  show "distinct (monthsBetween (y, m) (fullYear now, month now))"
    by (rule monthsBetween_distinct)
qed


lemma ex_keys:
  "billKey ''c1'' 2024 1 = ''c1-2024-1''" "billKey ''c1'' 2024 2 = ''c1-2024-2''"
  "billKey ''c1'' 2024 3 = ''c1-2024-3''" "billKey ''c1'' 2024 (Suc 0) = ''c1-2024-1''"
  by (simp_all add: billKey_def toString_def decimal.simps)

lemma ex_months: "monthsBetween (2024, 0) (2024, 2) = [(2024, 1), (2024, 2), (2024, 3)]"
  by (simp add: monthsBetween_def)

lemma ex_texts:
  "dateOnly ''2024-01-15'' = Some (2024, 0, 15)" "dateOnly ''2024-03-20'' = Some (2024, 2, 20)"
  "dateOnly ''2024-03-01'' = Some (2024, 2, 1)" "dateOnly ''0099-12-15'' = Some (99, 11, 15)"
  by (simp_all add: dateOnly_def digitValue_def)

lemma ex_dates:
  "new_Date_text 0 ''2024-01-15'' = Some jan15"
  "new_Date_text 0 ''2024-03-20'' = Some \<lparr>fullYear = 2024, month = 2, date = 20, msOfDay = 0\<rparr>"
  "new_Date_text 0 ''0099-12-15'' = Some \<lparr>fullYear = 99, month = 11, date = 15, msOfDay = 0\<rparr>"
  "new_Date_text (- 300) ''2024-03-01'' =
     Some \<lparr>fullYear = 2024, month = 1, date = 29, msOfDay = 68400000\<rparr>"
  by (simp_all add: new_Date_text_def ex_texts carryDay_def previousDay_def daysInMonth_def
      isLeapYear_def jan15_def)

text \<open>
  The scenario of the specification, in a zone on UTC: monthly bill 500, start
  2024-01-15, Active, no bills, run on 2024-03-20: the bills of January, February and
  March, due on the 31st, 29th and 31st. With the January bill present, February and
  March only; nothing for a paused customer or for a start date after the current date.
\<close>

lemma generator_boundary_example:
  "billsForCustomer 0 mar20 [] exCustomer =
     [SetBill (specBill exCustomer (2024, 1)), SetBill (specBill exCustomer (2024, 2)),
      SetBill (specBill exCustomer (2024, 3))] \<and>
   map (\<lambda>ym. (b_id (specBill exCustomer ym), b_amount (specBill exCustomer ym),
              status (specBill exCustomer ym), date (dueDate (specBill exCustomer ym))))
       [(2024, 1), (2024, 2), (2024, 3)] =
     [(''c1-2024-1'', 500, UNPAID, 31), (''c1-2024-2'', 500, UNPAID, 29),
      (''c1-2024-3'', 500, UNPAID, 31)] \<and>
   billsForCustomer 0 mar20 [exBill] exCustomer =
     [SetBill (specBill exCustomer (2024, 2)), SetBill (specBill exCustomer (2024, 3))] \<and>
   billsForCustomer 0 mar20 [] (exCustomer\<lparr>connectionStatus := PAUSED\<rparr>) = [] \<and>
   billsForCustomer 0 jan15 [] (exCustomer\<lparr>startDate := ''2024-03-20''\<rparr>) = [] \<and>
   generateBills 0 mar20 exState =
     [SetBill (specBill exCustomer (2024, 1)), SetBill (specBill exCustomer (2024, 2)),
      SetBill (specBill exCustomer (2024, 3))]"
proof -
  have c: "c_id exCustomer = ''c1''" "startDate exCustomer = ''2024-01-15''"
    "monthlyBill exCustomer = 500" "connectionStatus exCustomer = ACTIVE"
    by (simp_all add: exCustomer_def)
  have dt: "fullYear mar20 = 2024" "month mar20 = 2" by (simp_all add: mar20_def)
  have h1: "dateOnly (startDate exCustomer) = Some (2024, 0, 15)" by (simp add: c ex_texts)
  have h2: "\<not> dateGreater \<lparr>fullYear = 2024, month = 0, date = 15, msOfDay = nat (0 * 60000)\<rparr> mar20"
    by (simp add: dateGreater_def mar20_def)
  have h3: "(15::nat) \<le> daysInMonth 2024 0" by (simp add: daysInMonth_def)
  have h4: "dateGreater \<lparr>fullYear = 2024, month = 2, date = 20, msOfDay = 0\<rparr> jan15"
    by (simp add: dateGreater_def jan15_def)
  have h5: "userId exState \<noteq> None" "initialBillsLoaded exState" by (simp_all add: exState_def)
  note A = generator_boundary[where c = exCustomer and now = mar20 and bs = "[]" and s = exState
      and zone = 0 and y = 2024 and m = 0 and d = 15]
  note B = generator_boundary[where c = exCustomer and now = mar20 and bs = "[exBill]" and s = exState
      and zone = 0 and y = 2024 and m = 0 and d = 15]
  note C = generator_boundary[where c = "exCustomer\<lparr>connectionStatus := PAUSED\<rparr>" and now = mar20
      and bs = "[]" and s = exState and zone = 0]
  note D = generator_boundary[where c = "exCustomer\<lparr>startDate := ''2024-03-20''\<rparr>" and now = jan15
      and bs = "[]" and s = exState and zone = 0
      and start = "\<lparr>fullYear = 2024, month = 2, date = 20, msOfDay = 0\<rparr>"]
  have "billsForCustomer 0 mar20 [] exCustomer = specBillsFor mar20 [] exCustomer"
    using A[THEN conjunct1] c(4) h1 h2 h3 dt by simp
  then have t1: "billsForCustomer 0 mar20 [] exCustomer =
     [SetBill (specBill exCustomer (2024, 1)), SetBill (specBill exCustomer (2024, 2)),
      SetBill (specBill exCustomer (2024, 3))]"
    by (simp add: specBillsFor_def c dt ex_texts ex_months)
  have t2: "map (\<lambda>ym. (b_id (specBill exCustomer ym), b_amount (specBill exCustomer ym),
              status (specBill exCustomer ym), date (dueDate (specBill exCustomer ym))))
       [(2024, 1), (2024, 2), (2024, 3)] =
     [(''c1-2024-1'', 500, UNPAID, 31), (''c1-2024-2'', 500, UNPAID, 29),
      (''c1-2024-3'', 500, UNPAID, 31)]"
    by (simp add: specBill_def c ex_keys daysInMonth_def isLeapYear_def)
  have "billsForCustomer 0 mar20 [exBill] exCustomer = specBillsFor mar20 [exBill] exCustomer"
    using B[THEN conjunct1] c(4) h1 h2 h3 dt by simp
  then have t3: "billsForCustomer 0 mar20 [exBill] exCustomer =
     [SetBill (specBill exCustomer (2024, 2)), SetBill (specBill exCustomer (2024, 3))]"
    by (simp add: specBillsFor_def c dt ex_texts ex_months ex_keys exBill_def)
  have t4: "billsForCustomer 0 mar20 [] (exCustomer\<lparr>connectionStatus := PAUSED\<rparr>) = []"
    using C[THEN conjunct2, THEN conjunct1] by simp
  have t5: "billsForCustomer 0 jan15 [] (exCustomer\<lparr>startDate := ''2024-03-20''\<rparr>) = []"
    using D[THEN conjunct2, THEN conjunct2, THEN conjunct1] h4 by (simp add: ex_dates)
  have "generateBills 0 mar20 exState =
      concat (map (billsForCustomer 0 mar20 (bills exState)) (customers exState))"
    using A[THEN conjunct2, THEN conjunct2, THEN conjunct2, THEN conjunct1] h5 by simp
  then have t6: "generateBills 0 mar20 exState =
     [SetBill (specBill exCustomer (2024, 1)), SetBill (specBill exCustomer (2024, 2)),
      SetBill (specBill exCustomer (2024, 3))]"
    by (simp add: exState_def t1)
  show ?thesis using t1 t2 t3 t4 t5 t6 by simp
qed

lemma exOld_fields:
  "c_id exOld = ''c9''" "connectionStatus exOld = ACTIVE" "startDate exOld = ''0099-12-15''"
  by (simp_all add: exOld_def exCustomer_def)

lemma exMarch_fields:
  "c_id exMarch = ''c7''" "connectionStatus exMarch = ACTIVE" "startDate exMarch = ''2024-03-01''"
  by (simp_all add: exMarch_def exCustomer_def)

text \<open>
  Claim C2. The generator does not always begin at the month of the start date.

  An Active customer with the start date \<^verbatim>\<open>0099-12-15\<close>, no bills, the generator run on
  2024-03-20 in a zone on UTC: the claim asks for a bill for each month from December of
  the year 99 on, and \<open>specBillsFor\<close> begins with it. The code builds the first month of
  its loop with \<^verbatim>\<open>new Date(startDate.getFullYear(), startDate.getMonth(), 1)\<close>, which
  reads the year 99 as 1999, so its first bill is the one of December 1999.

  An Active customer with the start date \<^verbatim>\<open>2024-03-01\<close>, no bills, the generator run on
  2024-03-20 in a zone five hours west of UTC: the claim asks for the bill of March only.
  \<^verbatim>\<open>new Date("2024-03-01")\<close> is midnight in UTC, in that zone the evening of 29 February,
  and the code takes the month of the start date from \<^verbatim>\<open>getMonth()\<close>: it queues the bills
  of February and of March.
\<close>

theorem generator_first_month:
  "connectionStatus exOld = ACTIVE \<and>
   new_Date_text 0 (startDate exOld) =
     Some \<lparr>fullYear = 99, month = 11, date = 15, msOfDay = 0\<rparr> \<and>
   \<not> dateGreater \<lparr>fullYear = 99, month = 11, date = 15, msOfDay = 0\<rparr> mar20 \<and>
   hd (specBillsFor mar20 [] exOld) = SetBill (specBill exOld (99, 12)) \<and>
   hd (billsForCustomer 0 mar20 [] exOld) = SetBill (specBill exOld (1999, 12)) \<and>
   billsForCustomer 0 mar20 [] exOld \<noteq> specBillsFor mar20 [] exOld \<and>
   connectionStatus exMarch = ACTIVE \<and>
   new_Date_text (- 300) (startDate exMarch) =
     Some \<lparr>fullYear = 2024, month = 1, date = 29, msOfDay = 68400000\<rparr> \<and>
   specBillsFor mar20 [] exMarch = [SetBill (specBill exMarch (2024, 3))] \<and>
   billsForCustomer (- 300) mar20 [] exMarch =
     [SetBill (specBill exMarch (2024, 2)), SetBill (specBill exMarch (2024, 3))]"
proof -
  have dt: "fullYear mar20 = 2024" "month mar20 = 2" by (simp_all add: mar20_def)
  have p1: "new_Date_text 0 (startDate exOld) =
      Some \<lparr>fullYear = 99, month = 11, date = 15, msOfDay = 0\<rparr>"
    by (simp add: exOld_fields ex_dates)
  have h2: "\<not> dateGreater \<lparr>fullYear = 99, month = 11, date = 15, msOfDay = 0\<rparr> mar20"
    by (simp add: dateGreater_def mar20_def)
  have "monthsBetween (99, 11) (2024, 2) = (99, 11 + 1) # monthsBetween (setMonth (99, 11) (11 + 1)) (2024, 2)"
    by (rule monthsBetween_step) simp_all
  then have a: "hd (specBillsFor mar20 [] exOld) = SetBill (specBill exOld (99, 12))"
    by (simp add: specBillsFor_def exOld_fields ex_texts dt)
  have st: "new_Date_day1 99 11 = (1999, 11)"
    by (simp add: new_Date_day1_def makeFullYear_def)
  have d0: "new_Date_day0 1999 12 = \<lparr>fullYear = 1999, month = 11, date = 31, msOfDay = 0\<rparr>"
    by (simp add: new_Date_day0_def makeFullYear_def)
  have "billLoop exOld [] 2024 2 (1999, 11) =
      SetBill (specBill exOld (1999, 12)) # billLoop exOld [] 2024 2 (setMonth (1999, 11) (11 + 1))"
    by (subst billLoop_unfold) (simp add: d0 specBill_def daysInMonth_def)
  then have b: "hd (billsForCustomer 0 mar20 [] exOld) = SetBill (specBill exOld (1999, 12))"
    using h2 by (simp add: billsForCustomer_def exOld_fields ex_dates dt st)
  have "specBill exOld (99, 12) \<noteq> specBill exOld (1999, 12)"
    by (simp add: specBill_def)
  with a b have "hd (billsForCustomer 0 mar20 [] exOld) \<noteq> hd (specBillsFor mar20 [] exOld)"
    by simp
  then have c: "billsForCustomer 0 mar20 [] exOld \<noteq> specBillsFor mar20 [] exOld"
    by auto
  have p2: "new_Date_text (- 300) (startDate exMarch) =
      Some \<lparr>fullYear = 2024, month = 1, date = 29, msOfDay = 68400000\<rparr>"
    by (simp add: exMarch_fields ex_dates)
  have "monthsBetween (2024, 2) (2024, 2) = [(2024, 3)]"
    by (simp add: monthsBetween_def)
  then have e: "specBillsFor mar20 [] exMarch = [SetBill (specBill exMarch (2024, 3))]"
    by (simp add: specBillsFor_def exMarch_fields ex_texts dt)
  have h3: "\<not> dateGreater \<lparr>fullYear = 2024, month = 1, date = 29, msOfDay = 68400000\<rparr> mar20"
    by (simp add: dateGreater_def mar20_def)
  have "billLoop exMarch [] 2024 2 (2024, 1) =
     map (\<lambda>ym. SetBill (specBill exMarch ym))
       (filter (\<lambda>ym. \<not> list_ex (\<lambda>b. b_id b = billKey (c_id exMarch) (fst ym) (snd ym)) [])
          (monthsBetween (2024, 1) (2024, 2)))"
    using billLoop_spec[of "(2024, 1)" 2 exMarch "[]" 2024] by simp
  moreover have "monthsBetween (2024, 1) (2024, 2) = [(2024, 2), (2024, 3)]"
    by (simp add: monthsBetween_def)
  ultimately have "billLoop exMarch [] 2024 2 (2024, 1) =
     [SetBill (specBill exMarch (2024, 2)), SetBill (specBill exMarch (2024, 3))]"
    by simp
  then have f: "billsForCustomer (- 300) mar20 [] exMarch =
     [SetBill (specBill exMarch (2024, 2)), SetBill (specBill exMarch (2024, 3))]"
    using h3 by (simp add: billsForCustomer_def exMarch_fields ex_dates dt day1_start)
  show ?thesis using exOld_fields(2) exMarch_fields(2) p1 h2 a b c p2 e f by simp
qed

lemma billLoop_writes:
  "w \<in> set (billLoop c bs cy cm ld) \<Longrightarrow>
     \<exists>b. w = SetBill b \<and> b_id b = billKey (b_customerId b) (b_year b) (b_month b)"
proof (induction c bs cy cm ld rule: billLoop.induct)
  case (1 c bs cy cm ld)
  obtain y m where ld: "ld = (y, m)" by (cases ld)
  show ?case
  proof (cases "y < cy \<or> (y = cy \<and> m \<le> cm)")
    case False
    have "billLoop c bs cy cm (y, m) = []"
      by (subst billLoop_unfold) (simp only: False if_False)
    with "1.prems" ld show ?thesis by simp
  next
    case True
    have cnd: "fst ld < cy \<or> fst ld = cy \<and> snd ld \<le> cm" using True ld by simp
    note ih = "1.IH"[OF cnd refl refl refl refl]
    have u: "billLoop c bs cy cm (y, m) =
        (if \<not> list_ex (\<lambda>b. b_id b = billKey (c_id c) y (m + 1)) bs
            then [SetBill \<lparr>b_id = billKey (c_id c) y (m + 1), b_customerId = c_id c,
                     b_amount = monthlyBill c, b_month = m + 1, b_year = y,
                     status = UNPAID, dueDate = new_Date_day0 y (m + 1),
                     paidDate = None, paymentId = None, paidAmount = None\<rparr>]
            else [])
           @ billLoop c bs cy cm (setMonth (y, m) (m + 1))"
      by (subst billLoop_unfold) (simp only: True if_True)
    from "1.prems" consider
      (a) "w = SetBill \<lparr>b_id = billKey (c_id c) y (m + 1), b_customerId = c_id c,
                     b_amount = monthlyBill c, b_month = m + 1, b_year = y,
                     status = UNPAID, dueDate = new_Date_day0 y (m + 1),
                     paidDate = None, paymentId = None, paidAmount = None\<rparr>"
      | (b) "w \<in> set (billLoop c bs cy cm (setMonth (y, m) (m + 1)))"
      unfolding ld u by (auto split: if_splits)
    then show ?thesis
    proof cases
      case a
      then show ?thesis by simp
    next
      case b
      then show ?thesis using ih unfolding ld by simp
    qed
  qed
qed

lemma billLoop_filter:
  "billLoop c bs cy cm ld = filter (absentIn bs) (billLoop c [] cy cm ld)"
proof (induction c bs cy cm ld rule: billLoop.induct)
  case (1 c bs cy cm ld)
  obtain y m where ld: "ld = (y, m)" by (cases ld)
  show ?case
  proof (cases "y < cy \<or> (y = cy \<and> m \<le> cm)")
    case False
    have "billLoop c bs' cy cm (y, m) = []" for bs'
      by (subst billLoop_unfold) (simp only: False if_False)
    then show ?thesis unfolding ld by simp
  next
    case True
    have cnd: "fst ld < cy \<or> fst ld = cy \<and> snd ld \<le> cm" using True ld by simp
    note ih = "1.IH"[OF cnd refl refl refl refl, unfolded ld fst_conv snd_conv]
    have u: "billLoop c bs' cy cm (y, m) =
        (if \<not> list_ex (\<lambda>b. b_id b = billKey (c_id c) y (m + 1)) bs'
            then [SetBill \<lparr>b_id = billKey (c_id c) y (m + 1), b_customerId = c_id c,
                     b_amount = monthlyBill c, b_month = m + 1, b_year = y,
                     status = UNPAID, dueDate = new_Date_day0 y (m + 1),
                     paidDate = None, paymentId = None, paidAmount = None\<rparr>]
            else [])
           @ billLoop c bs' cy cm (setMonth (y, m) (m + 1))" for bs'
      by (subst billLoop_unfold) (simp only: True if_True)
    show ?thesis
      unfolding ld u[of bs] u[of "[]"] using ih by (simp add: absentIn_def)
  qed
qed

lemma billsForCustomer_None:
  assumes "new_Date_text zone (startDate c) = None"
  shows "billsForCustomer zone now bs c = []"
  using assms by (simp add: billsForCustomer_def)

lemma billsForCustomer_Some:
  assumes "new_Date_text zone (startDate c) = Some start"
  shows "billsForCustomer zone now bs c =
    (if connectionStatus c = ACTIVE \<and> \<not> dateGreater start now
     then billLoop c bs (fullYear now) (month now) (new_Date_day1 (fullYear start) (month start))
     else [])"
  using assms by (simp add: billsForCustomer_def)

lemma billsForCustomer_filter:
  "billsForCustomer zone now bs c = filter (absentIn bs) (billsForCustomer zone now [] c)"
proof (cases "new_Date_text zone (startDate c)")
  case None
  then show ?thesis by (simp only: billsForCustomer_None filter.simps)
next
  case (Some start)
  show ?thesis by (simp add: billsForCustomer_Some[OF Some] billLoop_filter[of c bs])
qed

lemma billsForCustomer_writes:
  "w \<in> set (billsForCustomer zone now bs c) \<Longrightarrow>
     \<exists>b. w = SetBill b \<and> b_id b = billKey (b_customerId b) (b_year b) (b_month b)"
proof -
  assume w: "w \<in> set (billsForCustomer zone now bs c)"
  show ?thesis
  proof (cases "new_Date_text zone (startDate c)")
    case None
    with w show ?thesis by (simp add: billsForCustomer_None)
  next
    case (Some start)
    with w have "w \<in> set (billLoop c bs (fullYear now) (month now)
        (new_Date_day1 (fullYear start) (month start)))"
      by (simp add: billsForCustomer_Some split: if_splits)
    then show ?thesis by (rule billLoop_writes)
  qed
qed

lemma generateBills_writes:
  "w \<in> set (generateBills zone now s) \<Longrightarrow>
     \<exists>b. w = SetBill b \<and> b_id b = billKey (b_customerId b) (b_year b) (b_month b)"
proof -
  assume "w \<in> set (generateBills zone now s)"
  then obtain c where "w \<in> set (billsForCustomer zone now (bills s) c)"
    by (auto simp: generateBills_def split: if_splits)
  then show ?thesis by (rule billsForCustomer_writes)
qed


lemma map_key_setDoc:
  "map key (setDoc key d ds) =
     (if key d \<in> set (map key ds) then map key ds else map key ds @ [key d])"
proof (cases "list_ex (\<lambda>x. key x = key d) ds")
  case True
  then have m: "key d \<in> set (map key ds)" by (induction ds) auto
  have "map key (map (\<lambda>x. if key x = key d then d else x) ds) = map key ds"
    by (induction ds) auto
  with True m show ?thesis by (simp add: setDoc_def)
next
  case False
  then have "key d \<notin> set (map key ds)" by (induction ds) auto
  with False show ?thesis by (simp add: setDoc_def)
qed

lemma set_setDoc: "set (setDoc key d ds) \<subseteq> insert d (set ds)"
  by (auto simp: setDoc_def)

lemma onlySetBill_Cons:
  "onlySetBill (w # ws) \<Longrightarrow> \<exists>b. w = SetBill b \<and> onlySetBill ws"
  by (cases w) (simp_all add: onlySetBill_def)

lemma commit_SetBill_frame:
  "onlySetBill ws \<Longrightarrow>
     userId (commit s ws) = userId s \<and> initialBillsLoaded (commit s ws) = initialBillsLoaded s \<and>
     customers (commit s ws) = customers s \<and> payments (commit s ws) = payments s \<and>
     areas (commit s ws) = areas s \<and> duePayments (commit s ws) = duePayments s"
proof (induction ws arbitrary: s)
  case Nil
  show ?case by (simp add: commit_Nil)
next
  case (Cons w ws)
  from onlySetBill_Cons[OF Cons.prems] obtain b where w: "w = SetBill b" and r: "onlySetBill ws"
    by blast
  from Cons.IH[OF r, of "apply_write s w"] show ?case by (simp add: commit_Cons w)
qed

lemma commit_SetBill_ids:
  "onlySetBill ws \<Longrightarrow>
     set (map b_id (bills (commit s ws))) =
       set (map b_id (bills s)) \<union> {b_id b |b. SetBill b \<in> set ws}"
proof (induction ws arbitrary: s)
  case Nil
  show ?case by (simp add: commit_Nil)
next
  case (Cons w ws)
  from onlySetBill_Cons[OF Cons.prems] obtain b where w: "w = SetBill b" and r: "onlySetBill ws"
    by blast
  have "set (map b_id (bills (apply_write s w))) = insert (b_id b) (set (map b_id (bills s)))"
    by (auto simp: w map_key_setDoc)
  with Cons.IH[OF r, of "apply_write s w"] show ?case
    by (auto simp: commit_Cons w)
qed

lemma commit_SetBill_distinct:
  "onlySetBill ws \<Longrightarrow> distinct (map b_id (bills s)) \<Longrightarrow>
     distinct (map b_id (bills (commit s ws)))"
proof (induction ws arbitrary: s)
  case Nil
  then show ?case by (simp add: commit_Nil)
next
  case (Cons w ws)
  from onlySetBill_Cons[OF Cons.prems(1)] obtain b where w: "w = SetBill b" and r: "onlySetBill ws"
    by blast
  have "distinct (map b_id (bills (apply_write s w)))"
    using Cons.prems(2) by (simp add: w map_key_setDoc)
  with Cons.IH[OF r, of "apply_write s w"] show ?case by (simp add: commit_Cons)
qed

lemma commit_SetBill_keyed:
  "onlySetBill ws \<Longrightarrow> keyed (bills s) \<Longrightarrow>
     (\<And>b. SetBill b \<in> set ws \<Longrightarrow> b_id b = billKey (b_customerId b) (b_year b) (b_month b)) \<Longrightarrow>
     keyed (bills (commit s ws))"
proof (induction ws arbitrary: s)
  case Nil
  then show ?case by (simp add: commit_Nil)
next
  case (Cons w ws)
  from onlySetBill_Cons[OF Cons.prems(1)] obtain b where w: "w = SetBill b" and r: "onlySetBill ws"
    by blast
  have kb: "b_id b = billKey (b_customerId b) (b_year b) (b_month b)"
    using Cons.prems(3)[of b] w by simp
  have "keyed (bills (apply_write s w))"
    using Cons.prems(2) kb set_setDoc[of b_id b "bills s"]
    by (auto simp: w keyed_def list_all_iff)
  moreover have "\<And>b. SetBill b \<in> set ws \<Longrightarrow> b_id b = billKey (b_customerId b) (b_year b) (b_month b)"
    using Cons.prems(3) by simp
  ultimately show ?case using Cons.IH[OF r, of "apply_write s w"] by (simp add: commit_Cons)
qed

lemma generateBills_onlySetBill: "onlySetBill (generateBills zone now s)"
  unfolding onlySetBill_def list_all_iff
proof
  fix w assume "w \<in> set (generateBills zone now s)"
  from generateBills_writes[OF this] obtain b where "w = SetBill b" by blast
  then show "case w of SetBill b \<Rightarrow> True | _ \<Rightarrow> False" by simp
qed

lemma generateBills_filter:
  "generateBills zone now s =
     filter (absentIn (bills s)) (generateBills zone now (s\<lparr>bills := []\<rparr>))"
proof -
  have "concat (map (billsForCustomer zone now (bills s)) cs) =
        filter (absentIn (bills s)) (concat (map (billsForCustomer zone now []) cs))" for cs
    by (induction cs) (simp_all add: billsForCustomer_filter[of zone now "bills s"])
  then show ?thesis by (simp add: generateBills_def)
qed

lemma generateBills_bills_only:
  assumes "userId s' = userId s" and "initialBillsLoaded s' = initialBillsLoaded s"
    and "customers s' = customers s"
  shows "generateBills zone now (s'\<lparr>bills := []\<rparr>) = generateBills zone now (s\<lparr>bills := []\<rparr>)"
  using assms by (simp add: generateBills_def)

lemma generator_second_run: "generateBills zone now (runGenerator zone now s) = []"
proof -
  let ?W = "generateBills zone now s"
  let ?G = "generateBills zone now (s\<lparr>bills := []\<rparr>)"
  let ?s' = "commit s ?W"
  have o: "onlySetBill ?W" by (rule generateBills_onlySetBill)
  have fr: "userId ?s' = userId s" "initialBillsLoaded ?s' = initialBillsLoaded s"
    "customers ?s' = customers s"
    using commit_SetBill_frame[OF o, of s] by simp_all
  have ids: "set (map b_id (bills ?s')) = set (map b_id (bills s)) \<union> {b_id b |b. SetBill b \<in> set ?W}"
    by (rule commit_SetBill_ids[OF o])
  have g: "generateBills zone now ?s' = filter (absentIn (bills ?s')) ?G"
    using generateBills_filter[of zone now ?s'] generateBills_bills_only[OF fr, of zone now] by simp
  have "\<not> absentIn (bills ?s') w" if w: "w \<in> set ?G" for w
  proof -
    from generateBills_writes[OF w] obtain b where b: "w = SetBill b" by blast
    have "b_id b \<in> set (map b_id (bills ?s'))"
    proof (cases "absentIn (bills s) w")
      case True
      with w have "w \<in> set ?W" using generateBills_filter[of zone now s] by simp
      with b ids show ?thesis by auto
    next
      case False
      then obtain x where "x \<in> set (bills s)" "b_id x = b_id b"
        by (auto simp: absentIn_def b list_ex_iff)
      then have "b_id b \<in> set (map b_id (bills s))"
        by (metis image_eqI set_map)
      with ids show ?thesis by auto
    qed
    then show ?thesis by (auto simp: absentIn_def b list_ex_iff)
  qed
  then have "filter (absentIn (bills ?s')) ?G = []" by (simp add: filter_empty_conv)
  with g show ?thesis by (simp add: runGenerator_def)
qed

lemma keyed_triples:
  assumes "distinct (map b_id bs)" and "keyed bs"
  shows "distinct (map (\<lambda>b. (b_customerId b, b_year b, b_month b)) bs)"
proof -
  from assms(1) have d: "distinct bs" and i: "inj_on b_id (set bs)" by (simp_all add: distinct_map)
  have "inj_on (\<lambda>b. (b_customerId b, b_year b, b_month b)) (set bs)"
  proof (rule inj_onI)
    fix x y assume x: "x \<in> set bs" and y: "y \<in> set bs"
      and e: "(b_customerId x, b_year x, b_month x) = (b_customerId y, b_year y, b_month y)"
    from assms(2) x y have "b_id x = billKey (b_customerId x) (b_year x) (b_month x)"
      "b_id y = billKey (b_customerId y) (b_year y) (b_month y)"
      by (simp_all add: keyed_def list_all_iff)
    with e have "b_id x = b_id y" by simp
    from inj_onD[OF i this x y] show "x = y" .
  qed
  with d show ?thesis by (simp add: distinct_map)
qed

text \<open>
  Claim C3. The generator is idempotent: for every state (customers, bills), current
  date and local zone, running it and running it again on the resulting state gives the state of the
  first run; the second run queues nothing. Over a bill list with one document per id
  the result has one document per id, and when every bill's id is the key of its
  customer, year and month, so it is in the result, and no two bills of the result share
  customer, year and month.
\<close>

theorem generator_idempotent:
  "runGenerator zone now (runGenerator zone now s) = runGenerator zone now s \<and>
   (distinct (map b_id (bills s)) \<longrightarrow> distinct (map b_id (bills (runGenerator zone now s)))) \<and>
   (distinct (map b_id (bills s)) \<and> keyed (bills s) \<longrightarrow>
      keyed (bills (runGenerator zone now s)) \<and>
      distinct (map (\<lambda>b. (b_customerId b, b_year b, b_month b)) (bills (runGenerator zone now s))))"
proof (intro conjI impI)
  show "runGenerator zone now (runGenerator zone now s) = runGenerator zone now s"
    using generator_second_run[of zone now s]
    by (simp add: runGenerator_def[of zone now "commit s (generateBills zone now s)"] runGenerator_def[of zone now s]
        commit_Nil)
next
  assume "distinct (map b_id (bills s))"
  then show "distinct (map b_id (bills (runGenerator zone now s)))"
    unfolding runGenerator_def by (rule commit_SetBill_distinct[OF generateBills_onlySetBill])
next
  assume a: "distinct (map b_id (bills s)) \<and> keyed (bills s)"
  have k: "keyed (bills (runGenerator zone now s))"
    unfolding runGenerator_def
  proof (rule commit_SetBill_keyed[OF generateBills_onlySetBill])
    show "keyed (bills s)" using a by simp
  next
    fix b assume "SetBill b \<in> set (generateBills zone now s)"
    from generateBills_writes[OF this]
    show "b_id b = billKey (b_customerId b) (b_year b) (b_month b)" by simp
  qed
  then show "keyed (bills (runGenerator zone now s))" .
  have d: "distinct (map b_id (bills (runGenerator zone now s)))"
    unfolding runGenerator_def using a
    by (intro commit_SetBill_distinct[OF generateBills_onlySetBill]) simp
  show "distinct (map (\<lambda>b. (b_customerId b, b_year b, b_month b)) (bills (runGenerator zone now s)))"
    by (rule keyed_triples[OF d k])
qed


lemma exBilled_generate:
  "generateBills 0 mar20 exBilled =
     [SetBill (specBill (exCustomer\<lparr>openingDue := 200\<rparr>) (2024, 2)),
      SetBill (specBill (exCustomer\<lparr>openingDue := 200\<rparr>) (2024, 3))]"
proof -
  let ?c = "exCustomer\<lparr>openingDue := 200\<rparr>"
  have c: "c_id ?c = ''c1''" "startDate ?c = ''2024-01-15''" "connectionStatus ?c = ACTIVE"
    by (simp_all add: exCustomer_def)
  have dt: "fullYear jan15 = 2024" "month jan15 = 0" "fullYear mar20 = 2024" "month mar20 = 2"
    by (simp_all add: jan15_def mar20_def)
  have ng: "\<not> dateGreater jan15 mar20" by (simp add: dateGreater_def jan15_def mar20_def)
  have "billLoop ?c [exBill] 2024 2 (2024, 0) =
     map (\<lambda>ym. SetBill (specBill ?c ym))
       (filter (\<lambda>ym. \<not> list_ex (\<lambda>b. b_id b = billKey (c_id ?c) (fst ym) (snd ym)) [exBill])
          (monthsBetween (2024, 0) (2024, 2)))"
    by (rule billLoop_spec) simp_all
  then have "billLoop ?c [exBill] 2024 2 (2024, 0) =
     [SetBill (specBill ?c (2024, 2)), SetBill (specBill ?c (2024, 3))]"
    by (simp add: c ex_months ex_keys exBill_def)
  then have "billsForCustomer 0 mar20 [exBill] ?c =
     [SetBill (specBill ?c (2024, 2)), SetBill (specBill ?c (2024, 3))]"
    by (simp add: billsForCustomer_def c ex_dates dt ng day1_start)
  then show ?thesis
    by (simp add: generateBills_def exBilled_def exState_def)
qed

text \<open>
  The example with the January bill present, run on 2024-03-20: February and March are
  added, a second run changes nothing.
\<close>

theorem generator_idempotent_witness:
  "distinct (map b_id (bills exBilled)) \<and> keyed (bills exBilled) \<and>
   runGenerator 0 mar20 (runGenerator 0 mar20 exBilled) = runGenerator 0 mar20 exBilled \<and>
   map b_id (bills (runGenerator 0 mar20 exBilled)) = [''c1-2024-1'', ''c1-2024-2'', ''c1-2024-3''] \<and>
   distinct (map b_id (bills (runGenerator 0 mar20 exBilled))) \<and>
   keyed (bills (runGenerator 0 mar20 exBilled)) \<and>
   distinct (map (\<lambda>b. (b_customerId b, b_year b, b_month b)) (bills (runGenerator 0 mar20 exBilled)))"
proof -
  have h1: "distinct (map b_id (bills exBilled))" by (simp add: exBilled_def)
  have h2: "keyed (bills exBilled)"
    by (simp add: keyed_def exBilled_def exBill_def ex_keys)
  note T = generator_idempotent[where zone = 0 and now = mar20 and s = exBilled]
  have t1: "runGenerator 0 mar20 (runGenerator 0 mar20 exBilled) = runGenerator 0 mar20 exBilled"
    using T by blast
  have t2: "map b_id (bills (runGenerator 0 mar20 exBilled)) = [''c1-2024-1'', ''c1-2024-2'', ''c1-2024-3'']"
    unfolding runGenerator_def exBilled_generate
    by (simp add: commit_def setDoc_def specBill_def ex_keys exBilled_def exBill_def exCustomer_def)
  have t3: "distinct (map b_id (bills (runGenerator 0 mar20 exBilled)))" using T h1 by blast
  have t4: "keyed (bills (runGenerator 0 mar20 exBilled))" using T h1 h2 by blast
  have t5: "distinct (map (\<lambda>b. (b_customerId b, b_year b, b_month b)) (bills (runGenerator 0 mar20 exBilled)))"
    using T h1 h2 by blast
  show ?thesis using h1 h2 t1 t2 t3 t4 t5 by blast
qed

section \<open>Areas: properties\<close>








section \<open>Access gate: properties\<close>

lemma norm_lits:
  "toLowerCase (trim ''active'') = ''active''"
  "toLowerCase (trim ''pending'') = ''pending''"
  "toLowerCase (trim ''free_trial'') = ''free_trial''"
  by (simp_all add: toLowerCase_def lowerChar_def upperChars_def lowerChars_def trim_def isSpace_def)

lemma ceil_pos: "0 < \<lceil>real_of_int d / 86400000\<rceil> \<longleftrightarrow> 0 < d"
  by (simp add: field_simps)

lemma gate_status_fields:
  "gateStatus (fst (useSubscriptionStatus memo ch user now)) = normalizedStatus user"
  "isSubscribed (fst (useSubscriptionStatus memo ch user now)) = (normalizedStatus user = ''active'')"
  "isPending (fst (useSubscriptionStatus memo ch user now)) = (normalizedStatus user = ''pending'')"
  by (simp_all add: useSubscriptionStatus_def normalizedStatus_def Let_def split: option.splits)

lemma gate_days_fields:
  "isTrialActive (fst (useSubscriptionStatus memo ch user now)) =
     (normalizedStatus user = ''free_trial'' \<and>
      trialDaysLeft (fst (useSubscriptionStatus memo ch user now)) > 0)"
  "isLocked (fst (useSubscriptionStatus memo ch user now)) =
     (\<not> normalizedStatus user = ''active'' \<and>
      \<not> (normalizedStatus user = ''free_trial'' \<and>
         trialDaysLeft (fst (useSubscriptionStatus memo ch user now)) > 0) \<and>
      \<not> normalizedStatus user = ''pending'')"
  by (simp_all add: useSubscriptionStatus_def normalizedStatus_def Let_def split: option.splits)

lemma gate_recomputed:
  assumes "memo = None \<or> (ch \<and> (\<exists>u e. user = Some u \<and> trialEndDate u = Some e))"
  shows "trialDaysLeft (fst (useSubscriptionStatus memo ch user now)) = daysUntil user now"
    and "snd (useSubscriptionStatus memo ch user now) =
           \<lparr>memoEndDate = (case user of None \<Rightarrow> None | Some u \<Rightarrow> trialEndDate u),
            memoDaysLeft = daysUntil user now\<rparr>"
  using assms
  by (auto simp: useSubscriptionStatus_def daysUntil_def Let_def split: option.splits)

text \<open>
  A render with the \<^verbatim>\<open>user\<close> object of the previous render returns the memoised days
  left, whatever the clock says, and leaves the memo as it was.
\<close>

lemma gate_memo_reused:
  "trialDaysLeft (fst (useSubscriptionStatus (Some m) False user now)) = memoDaysLeft m \<and>
   snd (useSubscriptionStatus (Some m) False user now) = m"
  by (simp add: useSubscriptionStatus_def Let_def)

text \<open>
  Claim C8, as amended. At a render that computes the memo (the first render of the
  component, or a render with a new user object that has a trial end date), with \<open>now\<close>
  the clock at that render, the gate computes
  \<open>trialDaysLeft = max 0 (ceiling ((trialEndDate - now) / 1 day))\<close> (0 without a trial end
  date), positive exactly while \<open>now\<close> is before the trial end. At every render, with
  \<open>trialDaysLeft\<close> the value the hook returns: it is subscribed or trial-active exactly
  when the status is active, or free_trial with days left; it is locked exactly when the
  status is neither active nor pending nor free_trial with days left. So a free_trial
  user with no day left is locked, and a pending user is not locked: the gate is open
  for active, for pending, and for free_trial with days left.
\<close>

theorem access_gate:
  "(memo = None \<or> (userChanged \<and> (\<exists>u e. user = Some u \<and> trialEndDate u = Some e))
      \<longrightarrow> trialDaysLeft (fst (useSubscriptionStatus memo userChanged user now)) = daysUntil user now) \<and>
   (isSubscribed (fst (useSubscriptionStatus memo userChanged user now)) \<or>
    isTrialActive (fst (useSubscriptionStatus memo userChanged user now))
      \<longleftrightarrow> normalizedStatus user = ''active'' \<or>
          (normalizedStatus user = ''free_trial'' \<and>
           trialDaysLeft (fst (useSubscriptionStatus memo userChanged user now)) > 0)) \<and>
   (isLocked (fst (useSubscriptionStatus memo userChanged user now))
      \<longleftrightarrow> \<not> (normalizedStatus user = ''active'' \<or> normalizedStatus user = ''pending'' \<or>
             (normalizedStatus user = ''free_trial'' \<and>
              trialDaysLeft (fst (useSubscriptionStatus memo userChanged user now)) > 0))) \<and>
   (normalizedStatus user = ''free_trial'' \<and>
    trialDaysLeft (fst (useSubscriptionStatus memo userChanged user now)) = 0
      \<longrightarrow> isLocked (fst (useSubscriptionStatus memo userChanged user now))) \<and>
   (normalizedStatus user = ''pending''
      \<longrightarrow> \<not> isLocked (fst (useSubscriptionStatus memo userChanged user now))) \<and>
   (user = Some u \<and> subscriptionStatus u = Some st \<and> st \<in> {''active'', ''pending'', ''free_trial''}
      \<longrightarrow> normalizedStatus user = st) \<and>
   (user = Some u \<and> trialEndDate u = Some e
      \<longrightarrow> daysUntil user now = max 0 \<lceil>real_of_int (e - now) / 86400000\<rceil> \<and>
          daysUntil user now = max 0 (- ((now - e) div 86400000)) \<and>
          (daysUntil user now > 0 \<longleftrightarrow> now < e)) \<and>
   (user = None \<or> (\<exists>u. user = Some u \<and> trialEndDate u = None) \<longrightarrow> daysUntil user now = 0)"
proof (intro conjI impI)
  assume "memo = None \<or> (userChanged \<and> (\<exists>u e. user = Some u \<and> trialEndDate u = Some e))"
  then show "trialDaysLeft (fst (useSubscriptionStatus memo userChanged user now)) = daysUntil user now"
    by (rule gate_recomputed)
next
  assume "user = Some u \<and> subscriptionStatus u = Some st \<and> st \<in> {''active'', ''pending'', ''free_trial''}"
  then have us: "user = Some u" "subscriptionStatus u = Some st"
    and "st = ''active'' \<or> st = ''pending'' \<or> st = ''free_trial''" by simp_all
  then consider "st = ''active''" | "st = ''pending''" | "st = ''free_trial''" by blast
  then show "normalizedStatus user = st"
  proof cases
    case 1
    then show ?thesis by (simp add: normalizedStatus_def us norm_lits)
  next
    case 2
    then show ?thesis by (simp add: normalizedStatus_def us norm_lits)
  next
    case 3
    then show ?thesis by (simp add: normalizedStatus_def us norm_lits)
  qed
next
  assume a: "user = Some u \<and> trialEndDate u = Some e"
  then show d0: "daysUntil user now = max 0 \<lceil>real_of_int (e - now) / 86400000\<rceil>"
    by (simp add: daysUntil_def computeDaysLeft_def)
  have "\<lceil>real_of_int (e - now) / real_of_int 86400000\<rceil> = - ((- (e - now)) div 86400000)"
    by (simp only: ceiling_divide_eq_div)
  then have c: "\<lceil>real_of_int (e - now) / 86400000\<rceil> = - ((now - e) div 86400000)"
    by simp
  from d0 c show "daysUntil user now = max 0 (- ((now - e) div 86400000))"
    by (simp only:)
  have p: "0 < \<lceil>real_of_int (e - now) / 86400000\<rceil> \<longleftrightarrow> 0 < e - now"
    by (rule ceil_pos)
  from d0 have "daysUntil user now > 0 \<longleftrightarrow> 0 < \<lceil>real_of_int (e - now) / 86400000\<rceil>"
    by (cases "0 \<le> \<lceil>real_of_int (e - now) / 86400000\<rceil>") (simp_all only: max_def, simp_all)
  with p show "daysUntil user now > 0 \<longleftrightarrow> now < e"
    by linarith
next
  assume "user = None \<or> (\<exists>u. user = Some u \<and> trialEndDate u = None)"
  then show "daysUntil user now = 0"
    by (auto simp: daysUntil_def computeDaysLeft_def)
qed (auto simp: gate_status_fields gate_days_fields)

text \<open>
  Claim C8 as stated fails. A pending user whose trial ended a day ago is neither active
  nor on a running trial, and the gate is not locked. And the days left are not those
  of the current time: for a trial that ends two days and one millisecond after the
  first render, a render three days later with the same user object still returns the
  3 days of the first render, where \<open>max 0 (ceiling ((trialEndDate - now) / 1 day))\<close> is 0,
  and is not locked.
\<close>

theorem access_gate_pending_unlocked:
  "gateStatus (fst (useSubscriptionStatus None False
      (Some \<lparr>u_id = ''u1'', subscriptionStatus = Some ''pending'', trialEndDate = Some 0\<rparr>) 86400000))
     = ''pending'' \<and>
   trialDaysLeft (fst (useSubscriptionStatus None False
      (Some \<lparr>u_id = ''u1'', subscriptionStatus = Some ''pending'', trialEndDate = Some 0\<rparr>) 86400000)) = 0 \<and>
   \<not> isLocked (fst (useSubscriptionStatus None False
      (Some \<lparr>u_id = ''u1'', subscriptionStatus = Some ''pending'', trialEndDate = Some 0\<rparr>) 86400000)) \<and>
   snd (useSubscriptionStatus None False (Some exUser) 0)
     = \<lparr>memoEndDate = Some 172800001, memoDaysLeft = 3\<rparr> \<and>
   trialDaysLeft (fst (useSubscriptionStatus
      (Some \<lparr>memoEndDate = Some 172800001, memoDaysLeft = 3\<rparr>) False (Some exUser) 259200000)) = 3 \<and>
   max 0 \<lceil>real_of_int (172800001 - 259200000) / 86400000\<rceil> = 0 \<and>
   \<not> isLocked (fst (useSubscriptionStatus
      (Some \<lparr>memoEndDate = Some 172800001, memoDaysLeft = 3\<rparr>) False (Some exUser) 259200000))"
  by (simp add: useSubscriptionStatus_def computeDaysLeft_def exUser_def toLowerCase_def lowerChar_def
      upperChars_def lowerChars_def trim_def isSpace_def)

text \<open>
  A trial ending two days and one millisecond after the first render has three days
  left and is not locked; a first render at its end has none and is locked; the same
  user while pending is not locked; a new user object is computed with the clock of its
  render; without a user the status is free_trial with no day left, locked.
\<close>

theorem access_gate_witness:
  "normalizedStatus (Some exUser) = ''free_trial'' \<and>
   daysUntil (Some exUser) 0 = 3 \<and>
   trialDaysLeft (fst (useSubscriptionStatus None False (Some exUser) 0)) = 3 \<and>
   \<not> isLocked (fst (useSubscriptionStatus None False (Some exUser) 0)) \<and>
   daysUntil (Some exUser) 172800001 = 0 \<and>
   trialDaysLeft (fst (useSubscriptionStatus None False (Some exUser) 172800001)) = 0 \<and>
   isLocked (fst (useSubscriptionStatus None False (Some exUser) 172800001)) \<and>
   trialDaysLeft (fst (useSubscriptionStatus
      (Some \<lparr>memoEndDate = Some 172800001, memoDaysLeft = 3\<rparr>) True (Some exUser) 172800001)) = 0 \<and>
   normalizedStatus (Some (exUser\<lparr>subscriptionStatus := Some ''pending''\<rparr>)) = ''pending'' \<and>
   \<not> isLocked (fst (useSubscriptionStatus None False
        (Some (exUser\<lparr>subscriptionStatus := Some ''pending''\<rparr>)) 172800001)) \<and>
   daysUntil None 0 = 0"
proof -
  have u: "subscriptionStatus exUser = Some ''free_trial''" "trialEndDate exUser = Some 172800001"
    by (simp_all add: exUser_def)
  have m: "''free_trial'' \<in> {''active'', ''pending'', ''free_trial''}"
    "''pending'' \<in> {''active'', ''pending'', ''free_trial''}" by simp_all
  note A = access_gate[where memo = None and userChanged = False and user = "Some exUser" and now = 0
      and u = exUser and st = "''free_trial''" and e = 172800001]
  note B = access_gate[where memo = None and userChanged = False and user = "Some exUser"
      and now = 172800001 and u = exUser and st = "''free_trial''" and e = 172800001]
  note B' = access_gate[where memo = "Some \<lparr>memoEndDate = Some 172800001, memoDaysLeft = 3\<rparr>"
      and userChanged = True and user = "Some exUser"
      and now = 172800001 and u = exUser and st = "''free_trial''" and e = 172800001]
  note C = access_gate[where memo = None and userChanged = False
      and user = "Some (exUser\<lparr>subscriptionStatus := Some ''pending''\<rparr>)"
      and now = 172800001 and u = "exUser\<lparr>subscriptionStatus := Some ''pending''\<rparr>"
      and st = "''pending''" and e = 172800001]
  note D = access_gate[where memo = None and userChanged = False and user = None and now = 0]
  note c6 = conjunct2[THEN conjunct2, THEN conjunct2, THEN conjunct2, THEN conjunct2, THEN conjunct1]
  note c7 = conjunct2[THEN conjunct2, THEN conjunct2, THEN conjunct2, THEN conjunct2, THEN conjunct2,
      THEN conjunct1]
  note c8 = conjunct2[THEN conjunct2, THEN conjunct2, THEN conjunct2, THEN conjunct2, THEN conjunct2,
      THEN conjunct2]
  have n1: "normalizedStatus (Some exUser) = ''free_trial''"
    using A[THEN c6] u m by simp
  have "daysUntil (Some exUser) 0 = max 0 (- ((0 - 172800001) div 86400000))"
    using A[THEN c7] u by simp
  then have d1: "daysUntil (Some exUser) 0 = 3" by simp
  have t1: "trialDaysLeft (fst (useSubscriptionStatus None False (Some exUser) 0)) = 3"
    using A[THEN conjunct1] d1 by simp
  have l1: "\<not> isLocked (fst (useSubscriptionStatus None False (Some exUser) 0))"
    using A[THEN conjunct2, THEN conjunct2, THEN conjunct1] n1 t1 by simp
  have "daysUntil (Some exUser) 172800001 = max 0 (- ((172800001 - 172800001) div 86400000))"
    using B[THEN c7] u by simp
  then have d2: "daysUntil (Some exUser) 172800001 = 0" by simp
  have t2: "trialDaysLeft (fst (useSubscriptionStatus None False (Some exUser) 172800001)) = 0"
    using B[THEN conjunct1] d2 by simp
  have l2: "isLocked (fst (useSubscriptionStatus None False (Some exUser) 172800001))"
    using B[THEN conjunct2, THEN conjunct2, THEN conjunct2, THEN conjunct1] n1 t2 by simp
  have t2': "trialDaysLeft (fst (useSubscriptionStatus
      (Some \<lparr>memoEndDate = Some 172800001, memoDaysLeft = 3\<rparr>) True (Some exUser) 172800001)) = 0"
    using B'[THEN conjunct1] d2 u by simp
  have n3: "normalizedStatus (Some (exUser\<lparr>subscriptionStatus := Some ''pending''\<rparr>)) = ''pending''"
    using C[THEN c6] m by simp
  have l3: "\<not> isLocked (fst (useSubscriptionStatus None False
        (Some (exUser\<lparr>subscriptionStatus := Some ''pending''\<rparr>)) 172800001))"
    using C[THEN conjunct2, THEN conjunct2, THEN conjunct2, THEN conjunct2, THEN conjunct1] n3
    by simp
  have d4: "daysUntil None 0 = 0" using D[THEN c8] by simp
  show ?thesis using n1 d1 t1 l1 d2 t2 l2 t2' n3 l3 d4 by simp
qed

end
